theory Spec2Isabelle
  imports Complex_Main "HOL-Library.Multiset"
begin

section \<open>Liar's Dice: the game core of \<^verbatim>\<open>dice/lib/game.py\<close>\<close>

text \<open>
  The Python objects are modelled with an explicit store. A \<^verbatim>\<open>Player\<close> object is
  an address (\<open>ref\<close>); the store \<open>heap\<close> maps every address to the object's fields.
  The list \<^verbatim>\<open>Game.players\<close> and the attributes \<^verbatim>\<open>current_player\<close> and
  \<^verbatim>\<open>previous_player\<close> hold addresses, so that removing a die through one of them is
  seen through the others, as in Python. Comparing two players (\<^verbatim>\<open>p != self.current_player\<close>)
  compares addresses: the class defines no \<^verbatim>\<open>__eq__\<close>.

  Every method is a function from the state to a result and the state it leaves behind.
  A raised exception is the result \<open>Inl e\<close>; the state next to it is the state at the
  moment of the raise, so that a mutation made before the raise is visible.

  The state also holds what lives outside the \<^verbatim>\<open>Game\<close> object but is read by its
  methods: the process-wide random generator (\<open>rng\<close>, the sequence of raw draws still to
  come) and the two list objects created once for the default value of the parameter
  \<^verbatim>\<open>known_dice\<close> of \<^verbatim>\<open>spot_on_equation\<close> and of \<^verbatim>\<open>bet_equation\<close>.
\<close>

subsection \<open>Data\<close>

datatype reason = TooManyDice int | InvalidFace int | NotBetter

datatype error =
  GameError reason | AttributeError | IndexError | ValueError | ZeroDivisionError | OverflowError

record bet =
  amount :: int
  face :: int

type_synonym ref = nat

record player =
  pid :: nat
  name :: string
  player_dice_size :: int
  dice :: "int list"

record game =
  players :: "ref list"
  dice_count :: int
  dice_size :: int
  current_bet :: "bet option"
  previous_player :: "ref option"
  current_player :: "ref option"
  heap :: "ref \<Rightarrow> player"
  rng :: "nat \<Rightarrow> nat"
  spot_on_default :: "int list"
  bet_default :: "int list"

type_synonym 'a result = "(error + 'a) \<times> game"

subsection \<open>Bet\<close>

text \<open>\<^verbatim>\<open>Bet.__lt__\<close>: \<^verbatim>\<open>None\<close> when the other bet is \<^verbatim>\<open>None\<close>, the comparison of the
  pairs (amount, face) otherwise.\<close>

definition bet_lt :: "bet \<Rightarrow> bet option \<Rightarrow> bool option" where
  "bet_lt self other =
     (case other of
        None \<Rightarrow> None
      | Some b \<Rightarrow> Some (amount self < amount b \<or> (amount self = amount b \<and> face self < face b)))"

subsection \<open>Player\<close>

text \<open>\<^verbatim>\<open>randint(a, b)\<close>: a value of \<open>[a, b]\<close> taken from the next raw draw; it raises
  \<^verbatim>\<open>ValueError\<close> on an empty range.\<close>

definition randint :: "int \<Rightarrow> int \<Rightarrow> game \<Rightarrow> int result" where
  "randint a b s =
     (if b < a then (Inl ValueError, s)
      else (Inr (a + int (rng s 0 mod nat (b - a + 1))), s\<lparr>rng := (\<lambda>k. rng s (Suc k))\<rparr>))"

definition set_dice :: "ref \<Rightarrow> int list \<Rightarrow> game \<Rightarrow> game" where
  "set_dice p ds s = s\<lparr>heap := (heap s)(p := (heap s p)\<lparr>dice := ds\<rparr>)\<rparr>"

fun roll_loop :: "nat \<Rightarrow> ref \<Rightarrow> game \<Rightarrow> unit result" where
  "roll_loop 0 p s = (Inr (), s)"
| "roll_loop (Suc n) p s =
     (case randint 1 (player_dice_size (heap s p)) s of
        (Inl e, s') \<Rightarrow> (Inl e, s')
      | (Inr v, s') \<Rightarrow> roll_loop n p (set_dice p (dice (heap s' p) @ [v]) s'))"

definition roll :: "ref \<Rightarrow> game \<Rightarrow> unit result" where
  "roll p s = (let count = length (dice (heap s p)) in roll_loop count p (set_dice p [] s))"

definition remove_die :: "ref \<Rightarrow> game \<Rightarrow> unit result" where
  "remove_die p s =
     (if dice (heap s p) = [] then (Inl IndexError, s)
      else (Inr (), set_dice p (butlast (dice (heap s p))) s))"

definition lost :: "ref \<Rightarrow> game \<Rightarrow> bool" where
  "lost p s = (length (dice (heap s p)) = 0)"

subsection \<open>Game: queries\<close>

definition dice_in_play :: "game \<Rightarrow> int" where
  "dice_in_play s = sum_list (map (\<lambda>p. int (length (dice (heap s p)))) (players s))"

definition all_dice :: "game \<Rightarrow> int list" where
  "all_dice s = concat (map (\<lambda>p. dice (heap s p)) (players s))"

definition game_over :: "game \<Rightarrow> bool" where
  "game_over s = (length (players s) = 1)"

text \<open>\<^verbatim>\<open>check_bet\<close> and \<^verbatim>\<open>check_spot_on\<close> are called with \<^verbatim>\<open>self.current_bet\<close>, which
  may be \<^verbatim>\<open>None\<close>: reading \<^verbatim>\<open>bet.face\<close> then raises \<^verbatim>\<open>AttributeError\<close>.\<close>

definition check_bet :: "bet option \<Rightarrow> game \<Rightarrow> bool result" where
  "check_bet b s =
     (case b of
        None \<Rightarrow> (Inl AttributeError, s)
      | Some b \<Rightarrow> (Inr (int (count_list (all_dice s) (face b)) \<ge> amount b), s))"

definition check_spot_on :: "bet option \<Rightarrow> game \<Rightarrow> bool result" where
  "check_spot_on b s =
     (case b of
        None \<Rightarrow> (Inl AttributeError, s)
      | Some b \<Rightarrow> (Inr (int (count_list (all_dice s) (face b)) = amount b), s))"

subsection \<open>Game: the probability queries\<close>

text \<open>
  The values of Python's floats are idealised as real numbers: the rounding of a result
  is not modelled. The exceptions of the float operations are modelled, so that the
  queries raise in the model where they raise in Python.

  \<^item> \<^verbatim>\<open>a / b\<close> on integers is correctly rounded. It raises \<^verbatim>\<open>ZeroDivisionError\<close> when
    \<open>b = 0\<close> and \<^verbatim>\<open>OverflowError\<close> when the quotient rounds beyond the largest double
    (from \<open>2^1024 - 2^970\<close> on); a quotient of at most \<open>2^-1075\<close> rounds to \<open>0.0\<close>.
  \<^item> \<^verbatim>\<open>x ** e\<close> with a float \<open>x\<close> and an integer \<open>e\<close> first converts \<open>e\<close> to a float
    (\<^verbatim>\<open>OverflowError\<close> when it is too large), returns \<open>1.0\<close> for \<open>e = 0\<close>, raises
    \<^verbatim>\<open>ZeroDivisionError\<close> for \<open>x = 0.0\<close> and \<open>e < 0\<close>, and raises \<^verbatim>\<open>OverflowError\<close> when the
    power computed by the platform is out of the range of a double. Whether it is, is
    decided by the platform's \<^verbatim>\<open>pow\<close> on the rounded operands: it is the parameter
    \<open>overflows\<close> of the queries.
  \<^item> The function \<^verbatim>\<open>binom\<close> comes from the library \<^verbatim>\<open>scipy.special\<close>, which is not
    part of the repository: it is the parameter \<open>binom\<close> of the queries.
\<close>

definition double_limit :: real where
  "double_limit = 2 ^ 1024 - 2 ^ 970"

definition tiny_limit :: real where
  "tiny_limit = 1 / 2 ^ 1075"

definition true_div :: "int \<Rightarrow> int \<Rightarrow> error + real" where
  "true_div a b =
     (if b = 0 then Inl ZeroDivisionError
      else if double_limit \<le> \<bar>real_of_int a / real_of_int b\<bar> then Inl OverflowError
      else if \<bar>real_of_int a / real_of_int b\<bar> \<le> tiny_limit then Inr 0
      else Inr (real_of_int a / real_of_int b))"

definition float_pow :: "(real \<Rightarrow> int \<Rightarrow> bool) \<Rightarrow> real \<Rightarrow> int \<Rightarrow> error + real" where
  "float_pow overflows x e =
     (if double_limit \<le> \<bar>real_of_int e\<bar> then Inl OverflowError
      else if e = 0 then Inr 1
      else if x = 0 \<and> e < 0 then Inl ZeroDivisionError
      else if overflows x e then Inl OverflowError
      else Inr (power_int x e))"

definition spot_on_equation ::
  "(int \<Rightarrow> int \<Rightarrow> real) \<Rightarrow> (real \<Rightarrow> int \<Rightarrow> bool) \<Rightarrow> int \<Rightarrow> int \<Rightarrow> int \<Rightarrow> int list option
     \<Rightarrow> game \<Rightarrow> real result" where
  "spot_on_equation binom overflows die_face dice_amount in_play known_dice s =
     (let known = (case known_dice of None \<Rightarrow> spot_on_default s | Some xs \<Rightarrow> xs);
          q = dice_amount - int (count_list known die_face);
          n = in_play - int (length known);
          c = binom n q
      in case true_div 1 (dice_size s) of
           Inl e \<Rightarrow> (Inl e, s)
         | Inr a \<Rightarrow>
        (case float_pow overflows a q of
           Inl e \<Rightarrow> (Inl e, s)
         | Inr aq \<Rightarrow>
        (case true_div (dice_size s - 1) (dice_size s) of
           Inl e \<Rightarrow> (Inl e, s)
         | Inr b \<Rightarrow>
        (case float_pow overflows b (n - q) of
           Inl e \<Rightarrow> (Inl e, s)
         | Inr bnq \<Rightarrow> (Inr (c * aq * bnq), s)))))"

text \<open>The list comprehension of \<^verbatim>\<open>bet_equation\<close>: one call of \<^verbatim>\<open>spot_on_equation\<close>
  with three arguments (so with its default \<^verbatim>\<open>known_dice\<close>) for every \<open>i\<close> of the range.\<close>

fun spot_on_each ::
  "(int \<Rightarrow> int \<Rightarrow> real) \<Rightarrow> (real \<Rightarrow> int \<Rightarrow> bool) \<Rightarrow> int \<Rightarrow> int \<Rightarrow> int list
     \<Rightarrow> game \<Rightarrow> (real list) result" where
  "spot_on_each binom overflows die_face in_play [] s = (Inr [], s)"
| "spot_on_each binom overflows die_face in_play (i # is) s =
     (case spot_on_equation binom overflows die_face i in_play None s of
        (Inl e, s') \<Rightarrow> (Inl e, s')
      | (Inr v, s') \<Rightarrow>
          (case spot_on_each binom overflows die_face in_play is s' of
             (Inl e, s'') \<Rightarrow> (Inl e, s'')
           | (Inr vs, s'') \<Rightarrow> (Inr (v # vs), s'')))"

definition bet_equation ::
  "(int \<Rightarrow> int \<Rightarrow> real) \<Rightarrow> (real \<Rightarrow> int \<Rightarrow> bool) \<Rightarrow> int \<Rightarrow> int \<Rightarrow> int \<Rightarrow> int list option
     \<Rightarrow> game \<Rightarrow> real result" where
  "bet_equation binom overflows die_face dice_amount in_play known_dice s =
     (let known = (case known_dice of None \<Rightarrow> bet_default s | Some xs \<Rightarrow> xs);
          dice_amount' = dice_amount - int (count_list known die_face);
          in_play' = in_play - int (length known)
      in case spot_on_each binom overflows die_face in_play' [dice_amount'..in_play'] s of
           (Inl e, s') \<Rightarrow> (Inl e, s')
         | (Inr vs, s') \<Rightarrow> (Inr (sum_list vs), s'))"

subsection \<open>Game: the mutators\<close>

definition next_player :: "game \<Rightarrow> ref result" where
  "next_player s =
     (let s1 = s\<lparr>previous_player := current_player s\<rparr>
      in case players s1 of
           [] \<Rightarrow> (Inl IndexError, s1)
         | p # ps \<Rightarrow> (Inr p, s1\<lparr>players := ps @ [p], current_player := Some p\<rparr>))"

text \<open>\<^verbatim>\<open>self.players.remove(lp)\<close> removes the first occurrence and raises
  \<^verbatim>\<open>ValueError\<close> when there is none.\<close>

fun remove_each :: "ref list \<Rightarrow> game \<Rightarrow> unit result" where
  "remove_each [] s = (Inr (), s)"
| "remove_each (lp # lps) s =
     (if lp \<in> set (players s) then remove_each lps (s\<lparr>players := remove1 lp (players s)\<rparr>)
      else (Inl ValueError, s))"

definition remove_lost_players :: "game \<Rightarrow> (ref list) result" where
  "remove_lost_players s =
     (let lost_players = filter (\<lambda>p. lost p s) (players s)
      in case remove_each lost_players s of
           (Inl e, s') \<Rightarrow> (Inl e, s')
         | (Inr _, s') \<Rightarrow> (Inr lost_players, s'))"

fun roll_all :: "ref list \<Rightarrow> game \<Rightarrow> unit result" where
  "roll_all [] s = (Inr (), s)"
| "roll_all (p # ps) s =
     (case roll p s of
        (Inl e, s') \<Rightarrow> (Inl e, s')
      | (Inr _, s') \<Rightarrow> roll_all ps s')"

text \<open>\<^verbatim>\<open>Game.setup\<close> (named \<open>game_setup\<close>: \<open>setup\<close> is a keyword of Isabelle).\<close>

definition game_setup :: "game \<Rightarrow> unit result" where
  "game_setup s =
     (case roll_all (players s) s of
        (Inl e, s') \<Rightarrow> (Inl e, s')
      | (Inr _, s') \<Rightarrow>
          (case next_player (s'\<lparr>current_player := None, previous_player := None,
                                 current_bet := None\<rparr>) of
             (Inl e, s'') \<Rightarrow> (Inl e, s'')
           | (Inr _, s'') \<Rightarrow> (Inr (), s'')))"

definition reset :: "game \<Rightarrow> unit result" where
  "reset s =
     (case roll_all (players s) s of
        (Inl e, s') \<Rightarrow> (Inl e, s')
      | (Inr _, s') \<Rightarrow> (Inr (), s'\<lparr>current_bet := None\<rparr>))"

definition first_bet :: "bet \<Rightarrow> game \<Rightarrow> unit result" where
  "first_bet b s =
     (if amount b > dice_in_play s then (Inl (GameError (TooManyDice (amount b))), s)
      else if face b > dice_size s \<or> 1 > face b then (Inl (GameError (InvalidFace (face b))), s)
      else (Inr (), s\<lparr>current_bet := Some b\<rparr>))"

definition place_bet :: "bet \<Rightarrow> game \<Rightarrow> unit result" where
  "place_bet b s =
     (if amount b > dice_in_play s then (Inl (GameError (TooManyDice (amount b))), s)
      else if face b > dice_size s \<or> 1 > face b then (Inl (GameError (InvalidFace (face b))), s)
      else (case current_bet s of
              None \<Rightarrow> (Inl AttributeError, s)
            | Some cb \<Rightarrow>
                if amount b > amount cb \<or> (amount b = amount cb \<and> face b > face cb)
                then (Inr (), s\<lparr>current_bet := Some b\<rparr>)
                else (Inl (GameError NotBetter), s)))"

text \<open>\<^verbatim>\<open>self.current_player.remove_die()\<close>: the attribute may be \<^verbatim>\<open>None\<close>.\<close>

definition remove_die_of :: "ref option \<Rightarrow> game \<Rightarrow> unit result" where
  "remove_die_of r s = (case r of None \<Rightarrow> (Inl AttributeError, s) | Some p \<Rightarrow> remove_die p s)"

definition lose_and_reset :: "ref option \<Rightarrow> bool \<Rightarrow> game \<Rightarrow> bool result" where
  "lose_and_reset r answer s =
     (case remove_die_of r s of
        (Inl e, s') \<Rightarrow> (Inl e, s')
      | (Inr _, s') \<Rightarrow>
          (case reset s' of
             (Inl e, s'') \<Rightarrow> (Inl e, s'')
           | (Inr _, s'') \<Rightarrow> (Inr answer, s'')))"

definition call_bluff :: "game \<Rightarrow> bool result" where
  "call_bluff s =
     (case check_bet (current_bet s) s of
        (Inl e, s') \<Rightarrow> (Inl e, s')
      | (Inr ok, s') \<Rightarrow>
          if ok then lose_and_reset (current_player s') False s'
          else lose_and_reset (previous_player s') True s')"

fun remove_others :: "ref list \<Rightarrow> game \<Rightarrow> unit result" where
  "remove_others [] s = (Inr (), s)"
| "remove_others (p # ps) s =
     (if Some p \<noteq> current_player s
      then (case remove_die p s of
              (Inl e, s') \<Rightarrow> (Inl e, s')
            | (Inr _, s') \<Rightarrow> remove_others ps s')
      else remove_others ps s)"

definition call_spot_on :: "game \<Rightarrow> bool result" where
  "call_spot_on s =
     (case check_spot_on (current_bet s) s of
        (Inl e, s') \<Rightarrow> (Inl e, s')
      | (Inr ok, s') \<Rightarrow>
          if ok
          then (case remove_others (players s') s' of
                  (Inl e, s'') \<Rightarrow> (Inl e, s'')
                | (Inr _, s'') \<Rightarrow>
                    (case reset s'' of
                       (Inl e, s3) \<Rightarrow> (Inl e, s3)
                     | (Inr _, s3) \<Rightarrow> (Inr True, s3)))
          else lose_and_reset (current_player s') False s')"

subsection \<open>Concrete tables\<close>

text \<open>
  \<open>table hands b pv c\<close> is a game of six-sided dice in which player \<open>i\<close> holds
  \<open>hands ! i\<close>, with the bet \<open>b\<close>, the previous player \<open>pv\<close> and the current player \<open>c\<close>.
  The theorems below are evaluated on such tables.
\<close>

definition table :: "int list list \<Rightarrow> bet option \<Rightarrow> ref option \<Rightarrow> ref option \<Rightarrow> game" where
  "table hands b pv c =
     \<lparr>players = [0..<length hands], dice_count = 1, dice_size = 6, current_bet = b,
      previous_player = pv, current_player = c,
      heap = (\<lambda>r. \<lparr>pid = r, name = ''player'', player_dice_size = 6,
                    dice = (if r < length hands then hands ! r else [])\<rparr>),
      rng = (\<lambda>k. k), spot_on_default = [], bet_default = []\<rparr>"

text \<open>Three players with one die each, pool \<open>[2, 5, 6]\<close>, the bet "one 2"; the third
  player is to call.\<close>

definition table3 :: game where
  "table3 = table [[2], [5], [6]] (Some \<lparr>amount = 1, face = 2\<rparr>) (Some 1) (Some 2)"

definition is_rule_violation :: "error + 'a \<Rightarrow> bool" where
  "is_rule_violation r = (case r of Inl (GameError _) \<Rightarrow> True | _ \<Rightarrow> False)"

subsection \<open>Relations between states\<close>

text \<open>
  \<open>rerolled ps s s'\<close>: the state \<open>s'\<close> is \<open>s\<close> after the players \<open>ps\<close> have rolled their
  dice again. Every hand has the size it had, the hands of \<open>ps\<close> hold values of the
  player's die, the other hands and the attributes of the game are untouched. The random
  generator is not mentioned: it has moved on.
\<close>

definition rerolled :: "ref list \<Rightarrow> game \<Rightarrow> game \<Rightarrow> bool" where
  "rerolled ps s s' \<longleftrightarrow>
     players s' = players s \<and> dice_count s' = dice_count s \<and> dice_size s' = dice_size s
   \<and> current_bet s' = current_bet s \<and> previous_player s' = previous_player s
   \<and> current_player s' = current_player s \<and> spot_on_default s' = spot_on_default s
   \<and> bet_default s' = bet_default s
   \<and> (\<forall>r. pid (heap s' r) = pid (heap s r) \<and> name (heap s' r) = name (heap s r)
          \<and> player_dice_size (heap s' r) = player_dice_size (heap s r)
          \<and> length (dice (heap s' r)) = length (dice (heap s r)))
   \<and> (\<forall>r. r \<notin> set ps \<longrightarrow> dice (heap s' r) = dice (heap s r))
   \<and> (\<forall>r\<in>set ps. \<forall>v\<in>set (dice (heap s' r)). 1 \<le> v \<and> v \<le> player_dice_size (heap s r))"

text \<open>The state after every player of \<open>ps\<close> other than the current player has lost
  the last die of the hand.\<close>

definition lose_others :: "ref list \<Rightarrow> game \<Rightarrow> game" where
  "lose_others ps s =
     s\<lparr>heap := (\<lambda>r. if r \<in> set ps \<and> Some r \<noteq> current_player s
                     then (heap s r)\<lparr>dice := butlast (dice (heap s r))\<rparr> else heap s r)\<rparr>"

subsection \<open>The binomial probability mass\<close>

text \<open>
  The formula of the specification for the probability that exactly \<open>q\<close> of \<open>m\<close> unknown
  dice show the face: \<open>C(m, q) \<cdot> (1/dice_size)^q \<cdot> ((dice_size - 1)/dice_size)^(m - q)\<close>,
  with \<open>C\<close> the binomial coefficient \<open>binom\<close>. It is what the queries are compared with.
\<close>

definition binomial_mass :: "(int \<Rightarrow> int \<Rightarrow> real) \<Rightarrow> int \<Rightarrow> int \<Rightarrow> int \<Rightarrow> real" where
  "binomial_mass binom ds m q =
     binom m q * power_int (1 / real_of_int ds) q
       * power_int ((real_of_int ds - 1) / real_of_int ds) (m - q)"

text \<open>
  The binomial coefficient at integers, 0 outside \<open>0 \<le> k \<le> n\<close>: an instance of the
  parameter \<open>binom\<close> on which the queries are evaluated.
\<close>

definition binom_std :: "int \<Rightarrow> int \<Rightarrow> real" where
  "binom_std n k = (if 0 \<le> k \<and> k \<le> n then real (nat n choose nat k) else 0)"


subsection \<open>Powers within the range of a double\<close>

text \<open>
  \<open>power_in_range overflows x e\<close>: computing \<^verbatim>\<open>x ** e\<close> raises no \<^verbatim>\<open>OverflowError\<close>. Either
  \<open>e = 0\<close>, or \<open>e\<close> converts to a float and the power does not overflow.
\<close>

definition power_in_range :: "(real \<Rightarrow> int \<Rightarrow> bool) \<Rightarrow> real \<Rightarrow> int \<Rightarrow> bool" where
  "power_in_range overflows x e \<longleftrightarrow>
     e = 0 \<or> (\<bar>real_of_int e\<bar> < double_limit \<and> \<not> overflows x e)"

text \<open>
  An instance of the parameter \<open>overflows\<close>, on which the queries are evaluated: the
  power overflows when its exact value rounds beyond the largest double.
\<close>

definition exceeds_double :: "real \<Rightarrow> int \<Rightarrow> bool" where
  "exceeds_double x e \<longleftrightarrow> double_limit \<le> \<bar>power_int x e\<bar>"

subsection \<open>The documented effect of the mutators\<close>

text \<open>
  A call is all-or-nothing in a state when it returns with its documented effect fully
  applied, or raises and leaves the whole state as it was. The effects below follow the
  specification of each mutator; they relate the state before the call, the value
  returned and the state after it.
\<close>

definition all_or_nothing ::
  "(game \<Rightarrow> 'a \<Rightarrow> game \<Rightarrow> bool) \<Rightarrow> (game \<Rightarrow> 'a result) \<Rightarrow> game \<Rightarrow> bool" where
  "all_or_nothing effect m s \<longleftrightarrow>
     (case m s of (Inl e, s') \<Rightarrow> s' = s | (Inr v, s') \<Rightarrow> effect s v s')"

text \<open>\<^verbatim>\<open>first_bet\<close> and \<^verbatim>\<open>place_bet\<close>: the bet becomes the current bet.\<close>

definition bet_effect :: "bet \<Rightarrow> game \<Rightarrow> unit \<Rightarrow> game \<Rightarrow> bool" where
  "bet_effect b s v s' \<longleftrightarrow> s' = s\<lparr>current_bet := Some b\<rparr>"

text \<open>\<^verbatim>\<open>next_player\<close>: the front player moves to the back, is returned and becomes the
  current player; the player who was current becomes the previous player.\<close>

definition next_player_effect :: "game \<Rightarrow> ref \<Rightarrow> game \<Rightarrow> bool" where
  "next_player_effect s v s' \<longleftrightarrow>
     players s \<noteq> [] \<and> v = hd (players s)
   \<and> s' = s\<lparr>previous_player := current_player s,
            players := tl (players s) @ [hd (players s)],
            current_player := Some (hd (players s))\<rparr>"

text \<open>\<^verbatim>\<open>remove_lost_players\<close>: every player with an empty hand leaves the rotation, and
  the players removed are returned.\<close>

definition remove_lost_players_effect :: "game \<Rightarrow> ref list \<Rightarrow> game \<Rightarrow> bool" where
  "remove_lost_players_effect s v s' \<longleftrightarrow>
     v = filter (\<lambda>p. lost p s) (players s)
   \<and> s' = s\<lparr>players := filter (\<lambda>p. \<not> lost p s) (players s)\<rparr>"

text \<open>\<^verbatim>\<open>setup\<close>: every player of the rotation rolls again, the bet and the two player
  attributes are cleared, and \<^verbatim>\<open>next_player\<close> is called once.\<close>

definition setup_effect :: "game \<Rightarrow> unit \<Rightarrow> game \<Rightarrow> bool" where
  "setup_effect s v s' \<longleftrightarrow>
     players s \<noteq> []
   \<and> rerolled (players s)
        (s\<lparr>current_bet := None, previous_player := None,
           players := tl (players s) @ [hd (players s)],
           current_player := Some (hd (players s))\<rparr>) s'"

text \<open>The player \<open>l\<close> loses one die and the round is reset.\<close>

definition loss_effect :: "ref \<Rightarrow> game \<Rightarrow> game \<Rightarrow> bool" where
  "loss_effect l s s' \<longleftrightarrow>
     dice (heap s l) \<noteq> []
   \<and> rerolled (players s)
        ((set_dice l (butlast (dice (heap s l))) s)\<lparr>current_bet := None\<rparr>) s'"

text \<open>\<^verbatim>\<open>call_bluff\<close>: it returns whether the pool falls short of the bet; the previous
  player loses one die if it does, the current player otherwise; the round is reset.\<close>

definition call_bluff_effect :: "game \<Rightarrow> bool \<Rightarrow> game \<Rightarrow> bool" where
  "call_bluff_effect s v s' \<longleftrightarrow>
     (\<exists>b l. current_bet s = Some b
        \<and> v = (\<not> amount b \<le> int (count_list (all_dice s) (face b)))
        \<and> (if v then previous_player s else current_player s) = Some l
        \<and> loss_effect l s s')"

text \<open>Every player of the rotation other than the current player holds a die.\<close>

definition others_hold_dice :: "game \<Rightarrow> bool" where
  "others_hold_dice s \<longleftrightarrow>
     (\<forall>p\<in>set (players s). Some p \<noteq> current_player s \<longrightarrow> dice (heap s p) \<noteq> [])"

text \<open>\<^verbatim>\<open>call_spot_on\<close>: it returns whether the pool matches the bet exactly; if so every
  player of the rotation other than the current player loses one die, otherwise the
  current player does; the round is reset.\<close>

definition call_spot_on_effect :: "game \<Rightarrow> bool \<Rightarrow> game \<Rightarrow> bool" where
  "call_spot_on_effect s v s' \<longleftrightarrow>
     (\<exists>b. current_bet s = Some b
        \<and> v = (int (count_list (all_dice s) (face b)) = amount b)
        \<and> (if v
            then others_hold_dice s
               \<and> rerolled (players s) ((lose_others (players s) s)\<lparr>current_bet := None\<rparr>) s'
            else (\<exists>l. current_player s = Some l \<and> loss_effect l s s')))"

text \<open>Every player of the rotation who holds dice has a die of at least one side, so
  that the hand can be rolled again.\<close>

definition rollable :: "game \<Rightarrow> bool" where
  "rollable s \<longleftrightarrow>
     (\<forall>p\<in>set (players s). dice (heap s p) \<noteq> [] \<longrightarrow> 1 \<le> player_dice_size (heap s p))"

text \<open>The table of three players with dice of no side, and a table whose rotation
  holds the first player twice.\<close>

definition zero_sized :: game where
  "zero_sized = table3\<lparr>heap := (\<lambda>r. (heap table3 r)\<lparr>player_dice_size := 0\<rparr>)\<rparr>"

definition doubled :: game where
  "doubled = (table [[2], [5], [6]] (Some \<lparr>amount = 2, face = 2\<rparr>) (Some 1) (Some 2))
               \<lparr>players := [0, 0, 1, 2]\<rparr>"

section \<open>Properties\<close>

subsection \<open>Frame lemmas\<close>

lemma set_dice_fields [simp]:
  "players (set_dice p ds s) = players s"
  "dice_count (set_dice p ds s) = dice_count s"
  "dice_size (set_dice p ds s) = dice_size s"
  "current_bet (set_dice p ds s) = current_bet s"
  "previous_player (set_dice p ds s) = previous_player s"
  "current_player (set_dice p ds s) = current_player s"
  "rng (set_dice p ds s) = rng s"
  "spot_on_default (set_dice p ds s) = spot_on_default s"
  "bet_default (set_dice p ds s) = bet_default s"
  "heap (set_dice p ds s) = (heap s)(p := (heap s p)\<lparr>dice := ds\<rparr>)"
  by (simp_all add: set_dice_def)

lemma set_dice_twice [simp]: "set_dice p ds (set_dice p es s) = set_dice p ds s"
  by (simp add: set_dice_def)

lemma set_dice_rng [simp]: "set_dice p ds (s\<lparr>rng := r\<rparr>) = (set_dice p ds s)\<lparr>rng := r\<rparr>"
  by (simp add: set_dice_def)

lemma dice_in_play_current_bet [simp]: "dice_in_play (s\<lparr>current_bet := b\<rparr>) = dice_in_play s"
  by (simp add: dice_in_play_def)

lemma table_fields [simp]:
  "players (table hands b pv c) = [0..<length hands]"
  "dice_size (table hands b pv c) = 6"
  "current_bet (table hands b pv c) = b"
  "previous_player (table hands b pv c) = pv"
  "current_player (table hands b pv c) = c"
  "spot_on_default (table hands b pv c) = []"
  "bet_default (table hands b pv c) = []"
  "dice (heap (table hands b pv c) r) = (if r < length hands then hands ! r else [])"
  "player_dice_size (heap (table hands b pv c) r) = 6"
  by (simp_all add: table_def)

lemma table3_facts:
  "players table3 = [0, 1, 2]"
  "dice_size table3 = 6"
  "dice_in_play table3 = 3"
  "all_dice table3 = [2, 5, 6]"
  "current_bet table3 = Some \<lparr>amount = 1, face = 2\<rparr>"
  "current_player table3 = Some 2"
  "previous_player table3 = Some 1"
  by (simp_all add: table3_def dice_in_play_def all_dice_def upt_rec)

subsection \<open>Turn rotation\<close>

text \<open>
  Claim C8. On a non-empty list of players, \<^verbatim>\<open>next_player\<close> returns the front player,
  moves it to the back of the list (the others keep their order, and the list holds the
  same players as before), makes it the current player and makes the player who was
  current the previous player; nothing else changes.
\<close>

theorem next_player_rotates:
  assumes "players s \<noteq> []"
  shows "next_player s =
           (Inr (hd (players s)),
            s\<lparr>previous_player := current_player s,
              players := tl (players s) @ [hd (players s)],
              current_player := Some (hd (players s))\<rparr>)
         \<and> mset (tl (players s) @ [hd (players s)]) = mset (players s)"
  using assms by (cases "players s") (simp_all add: next_player_def)

theorem next_player_rotates_witness:
  "players table3 \<noteq> []
   \<and> next_player table3 =
       (Inr 0, table3\<lparr>previous_player := Some 2, players := [1, 2, 0], current_player := Some 0\<rparr>)"
proof -
  have ne: "players table3 \<noteq> []"
    by (simp add: table3_def)
  have "hd (players table3) = 0" "tl (players table3) = [1, 2]" "current_player table3 = Some 2"
    by (simp_all add: table3_def upt_rec)
  with next_player_rotates [OF ne] ne show ?thesis
    by simp
qed

subsection \<open>Bets\<close>

text \<open>
  Claim C5. Let \<open>b1\<close> and \<open>b2\<close> pass the range checks of \<^verbatim>\<open>place_bet\<close>, with \<open>b1\<close>
  strictly below \<open>b2\<close> in the order of \<^verbatim>\<open>Bet.__lt__\<close> (amount first, then face). Then
  \<^verbatim>\<open>place_bet\<close> accepts \<open>b2\<close> over the current bet \<open>b1\<close> and makes it the current bet;
  it rejects \<open>b1\<close> over the current bet \<open>b2\<close>, and \<open>b1\<close> over \<open>b1\<close> itself, with a rule
  violation and no change. Over any current bet \<open>cb\<close>, it accepts \<open>b2\<close> exactly when \<open>cb\<close> is
  strictly below \<open>b2\<close>.
\<close>

theorem place_bet_strictly_greater:
  assumes "amount b1 \<le> dice_in_play s" "1 \<le> face b1" "face b1 \<le> dice_size s"
    and "amount b2 \<le> dice_in_play s" "1 \<le> face b2" "face b2 \<le> dice_size s"
    and "bet_lt b1 (Some b2) = Some True"
  shows "place_bet b2 (s\<lparr>current_bet := Some b1\<rparr>) = (Inr (), s\<lparr>current_bet := Some b2\<rparr>)
       \<and> place_bet b1 (s\<lparr>current_bet := Some b2\<rparr>)
           = (Inl (GameError NotBetter), s\<lparr>current_bet := Some b2\<rparr>)
       \<and> place_bet b1 (s\<lparr>current_bet := Some b1\<rparr>)
           = (Inl (GameError NotBetter), s\<lparr>current_bet := Some b1\<rparr>)
       \<and> place_bet b2 (s\<lparr>current_bet := Some cb\<rparr>)
           = (if bet_lt cb (Some b2) = Some True then (Inr (), s\<lparr>current_bet := Some b2\<rparr>)
              else (Inl (GameError NotBetter), s\<lparr>current_bet := Some cb\<rparr>))"
  using assms by (auto simp add: place_bet_def bet_lt_def)

theorem place_bet_strictly_greater_witness:
  "place_bet \<lparr>amount = 1, face = 3\<rparr> (table3\<lparr>current_bet := Some \<lparr>amount = 1, face = 2\<rparr>\<rparr>)
     = (Inr (), table3\<lparr>current_bet := Some \<lparr>amount = 1, face = 3\<rparr>\<rparr>)
   \<and> place_bet \<lparr>amount = 1, face = 2\<rparr> (table3\<lparr>current_bet := Some \<lparr>amount = 1, face = 3\<rparr>\<rparr>)
     = (Inl (GameError NotBetter), table3\<lparr>current_bet := Some \<lparr>amount = 1, face = 3\<rparr>\<rparr>)"
  using place_bet_strictly_greater [of "\<lparr>amount = 1, face = 2\<rparr>" table3 "\<lparr>amount = 1, face = 3\<rparr>"]
  by (simp add: table3_facts bet_lt_def)

text \<open>
  Claim C3, at the input where the code departs from it. The range check on the amount
  has an upper bound only: \<^verbatim>\<open>first_bet\<close> accepts a bet of zero dice, and \<^verbatim>\<open>place_bet\<close>
  then accepts another bet of zero dice over it.
\<close>

theorem first_bet_accepts_amount_zero:
  "first_bet \<lparr>amount = 0, face = 1\<rparr> (table3\<lparr>current_bet := None\<rparr>)
     = (Inr (), table3\<lparr>current_bet := Some \<lparr>amount = 0, face = 1\<rparr>\<rparr>)
   \<and> place_bet \<lparr>amount = 0, face = 2\<rparr> (table3\<lparr>current_bet := Some \<lparr>amount = 0, face = 1\<rparr>\<rparr>)
     = (Inr (), table3\<lparr>current_bet := Some \<lparr>amount = 0, face = 2\<rparr>\<rparr>)"
  by (simp add: first_bet_def place_bet_def table3_facts)

subsection \<open>Challenges without a bet\<close>

text \<open>
  Claim C4, as the code has it. When there is no current bet, \<^verbatim>\<open>call_bluff\<close> and
  \<^verbatim>\<open>call_spot_on\<close> fail and leave the state as it was; the failure is the
  \<^verbatim>\<open>AttributeError\<close> of reading \<^verbatim>\<open>bet.face\<close> on \<^verbatim>\<open>None\<close>, not a \<^verbatim>\<open>GameError\<close>.
\<close>

theorem challenge_without_bet:
  assumes "current_bet s = None"
  shows "call_bluff s = (Inl AttributeError, s) \<and> call_spot_on s = (Inl AttributeError, s)"
  using assms by (simp add: call_bluff_def call_spot_on_def check_bet_def check_spot_on_def)

theorem challenge_without_bet_witness:
  "current_bet (table3\<lparr>current_bet := None\<rparr>) = None
   \<and> call_bluff (table3\<lparr>current_bet := None\<rparr>) = (Inl AttributeError, table3\<lparr>current_bet := None\<rparr>)
   \<and> call_spot_on (table3\<lparr>current_bet := None\<rparr>) = (Inl AttributeError, table3\<lparr>current_bet := None\<rparr>)"
  using challenge_without_bet [of "table3\<lparr>current_bet := None\<rparr>"]
  by simp

text \<open>The error raised without a bet is not a rule violation.\<close>

theorem challenge_without_bet_counterexample:
  "current_bet (table3\<lparr>current_bet := None\<rparr>) = None
   \<and> \<not> is_rule_violation (fst (call_bluff (table3\<lparr>current_bet := None\<rparr>)))
   \<and> \<not> is_rule_violation (fst (call_spot_on (table3\<lparr>current_bet := None\<rparr>)))"
  by (simp add: call_bluff_def call_spot_on_def check_bet_def check_spot_on_def is_rule_violation_def)

subsection \<open>Rolling the dice\<close>

lemma roll_loop_ok:
  assumes "n = 0 \<or> 1 \<le> player_dice_size (heap s p)"
  shows "\<exists>vs r. length vs = n
           \<and> (\<forall>v\<in>set vs. 1 \<le> v \<and> v \<le> player_dice_size (heap s p))
           \<and> roll_loop n p s = (Inr (), (set_dice p (dice (heap s p) @ vs) s)\<lparr>rng := r\<rparr>)"
  using assms
proof (induction n arbitrary: s)
  case 0
  have "s = (set_dice p (dice (heap s p)) s)\<lparr>rng := rng s\<rparr>"
    by (simp add: set_dice_def)
  then show ?case by (metis roll_loop.simps(1) append_Nil2 length_0_conv empty_iff list.set(1))
next
  case (Suc n)
  define z where "z = player_dice_size (heap s p)"
  define v where "v = 1 + int (rng s 0 mod nat z)"
  define s1 where "s1 = set_dice p (dice (heap s p) @ [v]) (s\<lparr>rng := (\<lambda>k. rng s (Suc k))\<rparr>)"
  from Suc.prems have z: "1 \<le> z" by (simp add: z_def)
  have v: "1 \<le> v \<and> v \<le> z"
  proof -
    have "rng s 0 mod nat z < nat z" using z by simp
    then have "int (rng s 0 mod nat z) < z" using z by linarith
    then show ?thesis by (simp add: v_def)
  qed
  have step: "roll_loop (Suc n) p s = roll_loop n p s1"
    using z by (simp add: randint_def z_def v_def s1_def)
  have "n = 0 \<or> 1 \<le> player_dice_size (heap s1 p)"
    using z by (simp add: s1_def z_def)
  from Suc.IH [OF this] obtain vs r where
    len: "length vs = n"
    and rg: "\<forall>v\<in>set vs. 1 \<le> v \<and> v \<le> player_dice_size (heap s1 p)"
    and eq: "roll_loop n p s1 = (Inr (), (set_dice p (dice (heap s1 p) @ vs) s1)\<lparr>rng := r\<rparr>)"
    by blast
  have "(set_dice p (dice (heap s1 p) @ vs) s1)\<lparr>rng := r\<rparr>
          = (set_dice p (dice (heap s p) @ (v # vs)) s)\<lparr>rng := r\<rparr>"
    by (simp add: s1_def)
  moreover have "\<forall>w\<in>set (v # vs). 1 \<le> w \<and> w \<le> player_dice_size (heap s p)"
    using v rg by (simp add: s1_def z_def)
  ultimately show ?case
    using step eq len by (metis length_Cons)
qed

lemma roll_ok:
  assumes "dice (heap s p) = [] \<or> 1 \<le> player_dice_size (heap s p)"
  shows "\<exists>vs r. length vs = length (dice (heap s p))
           \<and> (\<forall>v\<in>set vs. 1 \<le> v \<and> v \<le> player_dice_size (heap s p))
           \<and> roll p s = (Inr (), (set_dice p vs s)\<lparr>rng := r\<rparr>)"
proof -
  have "length (dice (heap s p)) = 0 \<or> 1 \<le> player_dice_size (heap (set_dice p [] s) p)"
    using assms by auto
  from roll_loop_ok [OF this] show ?thesis
    by (simp add: roll_def)
qed

lemma roll_rerolled:
  assumes "dice (heap s p) = [] \<or> 1 \<le> player_dice_size (heap s p)"
  shows "\<exists>s'. roll p s = (Inr (), s') \<and> rerolled [p] s s'"
proof -
  from roll_ok [OF assms] obtain vs r where
    len: "length vs = length (dice (heap s p))"
    and rg: "\<forall>v\<in>set vs. 1 \<le> v \<and> v \<le> player_dice_size (heap s p)"
    and eq: "roll p s = (Inr (), (set_dice p vs s)\<lparr>rng := r\<rparr>)"
    by blast
  have "rerolled [p] s ((set_dice p vs s)\<lparr>rng := r\<rparr>)"
    using len rg by (simp add: rerolled_def)
  with eq show ?thesis by blast
qed

lemma rerolled_step:
  assumes "rerolled [p] s s1" and "rerolled ps s1 s2"
  shows "rerolled (p # ps) s s2"
  unfolding rerolled_def
proof (intro conjI)
  show "\<forall>r. r \<notin> set (p # ps) \<longrightarrow> dice (heap s2 r) = dice (heap s r)"
    using assms by (simp add: rerolled_def)
  show "\<forall>r\<in>set (p # ps). \<forall>v\<in>set (dice (heap s2 r)). 1 \<le> v \<and> v \<le> player_dice_size (heap s r)"
  proof (intro ballI)
    fix r v
    assume r: "r \<in> set (p # ps)" and v: "v \<in> set (dice (heap s2 r))"
    show "1 \<le> v \<and> v \<le> player_dice_size (heap s r)"
    proof (cases "r \<in> set ps")
      case True
      with assms v show ?thesis by (simp add: rerolled_def)
    next
      case False
      with r have "r = p" by simp
      with False assms v show ?thesis by (simp add: rerolled_def)
    qed
  qed
qed (use assms in \<open>simp_all add: rerolled_def\<close>)

lemma roll_all_rerolled:
  assumes "\<forall>p\<in>set ps. dice (heap s p) = [] \<or> 1 \<le> player_dice_size (heap s p)"
  shows "\<exists>s'. roll_all ps s = (Inr (), s') \<and> rerolled ps s s'"
  using assms
proof (induction ps arbitrary: s)
  case Nil
  show ?case by (simp add: rerolled_def)
next
  case (Cons p ps)
  then have "dice (heap s p) = [] \<or> 1 \<le> player_dice_size (heap s p)" by simp
  from roll_rerolled [OF this] obtain s1 where
    r1: "roll p s = (Inr (), s1)" and rr1: "rerolled [p] s s1"
    by blast
  have "\<forall>q\<in>set ps. dice (heap s1 q) = [] \<or> 1 \<le> player_dice_size (heap s1 q)"
  proof
    fix q assume "q \<in> set ps"
    with Cons.prems have "dice (heap s q) = [] \<or> 1 \<le> player_dice_size (heap s q)" by simp
    moreover have "length (dice (heap s1 q)) = length (dice (heap s q))"
      "player_dice_size (heap s1 q) = player_dice_size (heap s q)"
      using rr1 by (simp_all add: rerolled_def)
    ultimately show "dice (heap s1 q) = [] \<or> 1 \<le> player_dice_size (heap s1 q)"
      by (metis length_0_conv)
  qed
  from Cons.IH [OF this] obtain s2 where
    r2: "roll_all ps s1 = (Inr (), s2)" and rr2: "rerolled ps s1 s2"
    by blast
  have "roll_all (p # ps) s = (Inr (), s2)"
    using r1 r2 by simp
  with rerolled_step [OF rr1 rr2] show ?case by blast
qed

lemma reset_rerolled:
  assumes "\<forall>p\<in>set (players s). dice (heap s p) = [] \<or> 1 \<le> player_dice_size (heap s p)"
  shows "\<exists>s'. reset s = (Inr (), s') \<and> rerolled (players s) (s\<lparr>current_bet := None\<rparr>) s'"
proof -
  from roll_all_rerolled [OF assms] obtain s1 where
    r: "roll_all (players s) s = (Inr (), s1)" and rr: "rerolled (players s) s s1"
    by blast
  have "rerolled (players s) (s\<lparr>current_bet := None\<rparr>) (s1\<lparr>current_bet := None\<rparr>)"
    using rr by (simp add: rerolled_def)
  with r show ?thesis by (simp add: reset_def)
qed

subsection \<open>Calling a bluff\<close>

lemma sum_list_one_less:
  assumes "distinct xs" and "l \<in> set xs"
    and "\<forall>r. g r = f r - (if r = l then 1 else 0)"
  shows "sum_list (map g xs) = sum_list (map f xs) - (1::int)"
  using assms(1,2)
proof (induction xs)
  case Nil
  then show ?case by simp
next
  case (Cons x xs)
  show ?case
  proof (cases "x = l")
    case True
    with Cons.prems have "l \<notin> set xs" by simp
    then have "sum_list (map g xs) = sum_list (map f xs)"
      using assms(3) by (intro arg_cong [where f = sum_list] map_cong) auto
    moreover have "g l = f l - 1"
      using assms(3) by simp
    ultimately show ?thesis using True by simp
  next
    case False
    with Cons have "sum_list (map g xs) = sum_list (map f xs) - 1" by simp
    moreover have "g x = f x"
      using False assms(3) by simp
    ultimately show ?thesis by simp
  qed
qed

lemma lose_and_reset_ok:
  assumes l: "dice (heap s l) \<noteq> []"
    and sz: "\<forall>p\<in>set (players s). 1 \<le> player_dice_size (heap s p)"
  shows "\<exists>s'. lose_and_reset (Some l) answer s = (Inr answer, s')
           \<and> rerolled (players s) ((set_dice l (butlast (dice (heap s l))) s)\<lparr>current_bet := None\<rparr>) s'"
proof -
  define s1 where "s1 = set_dice l (butlast (dice (heap s l))) s"
  have rd: "remove_die_of (Some l) s = (Inr (), s1)"
    using l by (simp add: remove_die_of_def remove_die_def s1_def)
  have "\<forall>p\<in>set (players s1). dice (heap s1 p) = [] \<or> 1 \<le> player_dice_size (heap s1 p)"
    using sz by (simp add: s1_def)
  from reset_rerolled [OF this] obtain s' where
    "reset s1 = (Inr (), s')" "rerolled (players s1) (s1\<lparr>current_bet := None\<rparr>) s'"
    by blast
  with rd show ?thesis
    by (simp add: lose_and_reset_def s1_def)
qed

lemma rerolled_after_loss:
  assumes rr: "rerolled (players s) ((set_dice l (butlast (dice (heap s l))) s)\<lparr>current_bet := None\<rparr>) s'"
    and l: "dice (heap s l) \<noteq> []"
  shows "(\<forall>r. int (length (dice (heap s' r)))
               = int (length (dice (heap s r))) - (if r = l then 1 else 0))
       \<and> (\<forall>r\<in>set (players s). \<forall>v\<in>set (dice (heap s' r)).
             1 \<le> v \<and> v \<le> player_dice_size (heap s' r))
       \<and> players s' = players s \<and> current_bet s' = None
       \<and> current_player s' = current_player s \<and> previous_player s' = previous_player s
       \<and> (distinct (players s) \<and> l \<in> set (players s) \<longrightarrow> dice_in_play s' = dice_in_play s - 1)"
proof -
  have len: "\<forall>r. int (length (dice (heap s' r)))
               = int (length (dice (heap s r))) - (if r = l then 1 else 0)"
  proof
    fix r
    have "length (dice (heap s' r))
            = length (dice (heap ((set_dice l (butlast (dice (heap s l))) s)\<lparr>current_bet := None\<rparr>) r))"
      using rr by (simp add: rerolled_def)
    moreover have "int (length (butlast (dice (heap s l)))) = int (length (dice (heap s l))) - 1"
      using l by (cases "dice (heap s l)") simp_all
    ultimately show "int (length (dice (heap s' r)))
               = int (length (dice (heap s r))) - (if r = l then 1 else 0)"
      by simp
  qed
  have rng: "\<forall>r\<in>set (players s). \<forall>v\<in>set (dice (heap s' r)).
             1 \<le> v \<and> v \<le> player_dice_size (heap s' r)"
    using rr by (simp add: rerolled_def)
  have pl: "players s' = players s" using rr by (simp add: rerolled_def)
  have tot: "dice_in_play s' = dice_in_play s - 1" if "distinct (players s)" "l \<in> set (players s)"
    unfolding dice_in_play_def pl
    by (rule sum_list_one_less [OF that]) (use len in simp)
  show ?thesis
    using len rng tot rr by (simp add: rerolled_def)
qed

text \<open>
  Claim C1. In a state with a current bet \<open>b\<close>, a current player \<open>c\<close> and a previous
  player \<open>pv\<close>, where every player of the rotation and both \<open>c\<close> and \<open>pv\<close> hold a die (of a
  die size of at least 1), \<^verbatim>\<open>call_bluff\<close> returns. When the pool holds at least
  \<open>amount b\<close> dice showing \<open>face b\<close>, it returns \<open>False\<close> and the current player is the
  loser; otherwise it returns \<open>True\<close> and the previous player is the loser. The loser's
  hand is one die shorter and every other hand has the size it had: one die is removed
  in total, so the dice in play are one fewer when the loser is in the rotation. The
  round is reset: there is no current bet, the hands of the rotation hold values of the
  die, and the rotation and the two player attributes are as before.
\<close>

theorem call_bluff_resolves:
  assumes bet: "current_bet s = Some b"
    and cur: "current_player s = Some c"
    and prev: "previous_player s = Some pv"
    and hands: "\<forall>p\<in>set (players s) \<union> {c, pv}. dice (heap s p) \<noteq> []"
    and sizes: "\<forall>p\<in>set (players s). 1 \<le> player_dice_size (heap s p)"
    and ok: "ok = (amount b \<le> int (count_list (all_dice s) (face b)))"
    and loser: "loser = (if ok then c else pv)"
  shows "\<exists>s'. call_bluff s = (Inr (\<not> ok), s')
       \<and> (\<forall>r. int (length (dice (heap s' r)))
               = int (length (dice (heap s r))) - (if r = loser then 1 else 0))
       \<and> (\<forall>r\<in>set (players s). \<forall>v\<in>set (dice (heap s' r)).
             1 \<le> v \<and> v \<le> player_dice_size (heap s' r))
       \<and> players s' = players s \<and> current_bet s' = None
       \<and> current_player s' = current_player s \<and> previous_player s' = previous_player s
       \<and> (distinct (players s) \<and> loser \<in> set (players s) \<longrightarrow> dice_in_play s' = dice_in_play s - 1)"
proof -
  have l: "dice (heap s loser) \<noteq> []"
    using hands loser by simp
  have cb: "call_bluff s = lose_and_reset (Some loser) (\<not> ok) s"
    using bet cur prev ok loser by (simp add: call_bluff_def check_bet_def)
  from lose_and_reset_ok [OF l sizes, of "\<not> ok"] obtain s' where
    res: "lose_and_reset (Some loser) (\<not> ok) s = (Inr (\<not> ok), s')"
    and rr: "rerolled (players s) ((set_dice loser (butlast (dice (heap s loser))) s)\<lparr>current_bet := None\<rparr>) s'"
    by blast
  from cb res have e: "call_bluff s = (Inr (\<not> ok), s')"
    by simp
  show ?thesis
    by (rule exI [of _ s']) (rule conjI [OF e rerolled_after_loss [OF rr l]])
qed

theorem call_bluff_resolves_witness:
  "(\<exists>s'. call_bluff (table [[3], [3]] (Some \<lparr>amount = 2, face = 3\<rparr>) (Some 0) (Some 1)) = (Inr False, s')
         \<and> length (dice (heap s' 1)) = 0 \<and> length (dice (heap s' 0)) = 1 \<and> current_bet s' = None)
   \<and> (\<exists>s'. call_bluff (table [[3], [4]] (Some \<lparr>amount = 2, face = 3\<rparr>) (Some 0) (Some 1)) = (Inr True, s')
         \<and> length (dice (heap s' 1)) = 1 \<and> length (dice (heap s' 0)) = 0 \<and> current_bet s' = None)"
proof
  let ?T = "table [[3], [3]] (Some \<lparr>amount = 2, face = 3\<rparr>) (Some 0) (Some 1)"
  have "\<exists>s'. call_bluff ?T = (Inr (\<not> True), s')
       \<and> (\<forall>r. int (length (dice (heap s' r)))
               = int (length (dice (heap ?T r))) - (if r = 1 then 1 else 0))
       \<and> (\<forall>r\<in>set (players ?T). \<forall>v\<in>set (dice (heap s' r)).
             1 \<le> v \<and> v \<le> player_dice_size (heap s' r))
       \<and> players s' = players ?T \<and> current_bet s' = None
       \<and> current_player s' = current_player ?T \<and> previous_player s' = previous_player ?T
       \<and> (distinct (players ?T) \<and> 1 \<in> set (players ?T) \<longrightarrow> dice_in_play s' = dice_in_play ?T - 1)"
    by (rule call_bluff_resolves [where b = "\<lparr>amount = 2, face = 3\<rparr>" and c = 1 and pv = 0])
       (simp_all add: all_dice_def upt_rec)
  then obtain s' where e: "call_bluff ?T = (Inr False, s')"
    and len: "\<forall>r. int (length (dice (heap s' r)))
               = int (length (dice (heap ?T r))) - (if r = 1 then 1 else 0)"
    and cb: "current_bet s' = None"
    by auto
  from len [rule_format, of 0] len [rule_format, of 1]
  have "length (dice (heap s' 1)) = 0 \<and> length (dice (heap s' 0)) = 1"
    by simp
  with e cb show "\<exists>s'. call_bluff ?T = (Inr False, s')
         \<and> length (dice (heap s' 1)) = 0 \<and> length (dice (heap s' 0)) = 1 \<and> current_bet s' = None"
    by blast
next
  let ?T = "table [[3], [4]] (Some \<lparr>amount = 2, face = 3\<rparr>) (Some 0) (Some 1)"
  have "\<exists>s'. call_bluff ?T = (Inr (\<not> False), s')
       \<and> (\<forall>r. int (length (dice (heap s' r)))
               = int (length (dice (heap ?T r))) - (if r = 0 then 1 else 0))
       \<and> (\<forall>r\<in>set (players ?T). \<forall>v\<in>set (dice (heap s' r)).
             1 \<le> v \<and> v \<le> player_dice_size (heap s' r))
       \<and> players s' = players ?T \<and> current_bet s' = None
       \<and> current_player s' = current_player ?T \<and> previous_player s' = previous_player ?T
       \<and> (distinct (players ?T) \<and> 0 \<in> set (players ?T) \<longrightarrow> dice_in_play s' = dice_in_play ?T - 1)"
    by (rule call_bluff_resolves [where b = "\<lparr>amount = 2, face = 3\<rparr>" and c = 1 and pv = 0])
       (simp_all add: all_dice_def upt_rec)
  then obtain s' where e: "call_bluff ?T = (Inr True, s')"
    and len: "\<forall>r. int (length (dice (heap s' r)))
               = int (length (dice (heap ?T r))) - (if r = 0 then 1 else 0)"
    and cb: "current_bet s' = None"
    by auto
  from len [rule_format, of 0] len [rule_format, of 1]
  have "length (dice (heap s' 1)) = 1 \<and> length (dice (heap s' 0)) = 0"
    by simp
  with e cb show "\<exists>s'. call_bluff ?T = (Inr True, s')
         \<and> length (dice (heap s' 1)) = 1 \<and> length (dice (heap s' 0)) = 0 \<and> current_bet s' = None"
    by blast
qed

subsection \<open>Calling spot-on\<close>

lemma int_length_pred: "xs \<noteq> [] \<Longrightarrow> int (length xs - Suc 0) = int (length xs) - 1"
  by (cases xs) simp_all

lemma remove_others_ok:
  assumes "distinct ps"
    and "\<forall>p\<in>set ps. Some p \<noteq> current_player s \<longrightarrow> dice (heap s p) \<noteq> []"
  shows "remove_others ps s = (Inr (), lose_others ps s)"
  using assms
proof (induction ps arbitrary: s)
  case Nil
  show ?case by (simp add: lose_others_def)
next
  case (Cons p ps)
  from Cons.prems have notin: "p \<notin> set ps" and dist: "distinct ps" by simp_all
  show ?case
  proof (cases "Some p \<noteq> current_player s")
    case True
    define s1 where "s1 = set_dice p (butlast (dice (heap s p))) s"
    have rd: "remove_die p s = (Inr (), s1)"
      using True Cons.prems by (simp add: remove_die_def s1_def)
    have "\<forall>q\<in>set ps. Some q \<noteq> current_player s1 \<longrightarrow> dice (heap s1 q) \<noteq> []"
      using Cons.prems notin by (auto simp add: s1_def)
    from Cons.IH [OF dist this] have "remove_others ps s1 = (Inr (), lose_others ps s1)" .
    moreover have "lose_others ps s1 = lose_others (p # ps) s"
      using True notin by (auto simp add: lose_others_def s1_def set_dice_def fun_eq_iff)
    ultimately show ?thesis
      using True rd by simp
  next
    case False
    have "\<forall>q\<in>set ps. Some q \<noteq> current_player s \<longrightarrow> dice (heap s q) \<noteq> []"
      using Cons.prems by simp
    from Cons.IH [OF dist this] have "remove_others ps s = (Inr (), lose_others ps s)" .
    moreover have "lose_others ps s = lose_others (p # ps) s"
      using False by (auto simp add: lose_others_def fun_eq_iff)
    ultimately show ?thesis
      using False by simp
  qed
qed

lemma lose_others_fields [simp]:
  "players (lose_others ps s) = players s"
  "current_player (lose_others ps s) = current_player s"
  "previous_player (lose_others ps s) = previous_player s"
  "player_dice_size (heap (lose_others ps s) r) = player_dice_size (heap s r)"
  "length (dice (heap (lose_others ps s) r))
     = length (dice (heap s r)) - (if r \<in> set ps \<and> Some r \<noteq> current_player s then 1 else 0)"
  by (simp_all add: lose_others_def)

text \<open>
  Claim C2. In a state with a current bet \<open>b\<close> and a current player \<open>c\<close>, where every
  player of the rotation and \<open>c\<close> hold a die (of a die size of at least 1) and the
  rotation holds each player once, \<^verbatim>\<open>call_spot_on\<close> returns. When the pool holds exactly
  \<open>amount b\<close> dice showing \<open>face b\<close>, it returns \<open>True\<close> and every player of the rotation
  other than \<open>c\<close> has one die fewer, \<open>c\<close> keeping its hand; otherwise it returns \<open>False\<close>
  and \<open>c\<close> alone has one die fewer. The two outcomes never mix. The round is reset as
  after a bluff call.
\<close>

theorem call_spot_on_resolves:
  assumes bet: "current_bet s = Some b"
    and cur: "current_player s = Some c"
    and hands: "\<forall>p\<in>set (players s) \<union> {c}. dice (heap s p) \<noteq> []"
    and sizes: "\<forall>p\<in>set (players s). 1 \<le> player_dice_size (heap s p)"
    and dist: "distinct (players s)"
    and exact: "exact = (int (count_list (all_dice s) (face b)) = amount b)"
  shows "\<exists>s'. call_spot_on s = (Inr exact, s')
       \<and> (\<forall>r. int (length (dice (heap s' r)))
               = int (length (dice (heap s r)))
                 - (if exact then (if r \<in> set (players s) \<and> r \<noteq> c then 1 else 0)
                    else (if r = c then 1 else 0)))
       \<and> (\<forall>r\<in>set (players s). \<forall>v\<in>set (dice (heap s' r)).
             1 \<le> v \<and> v \<le> player_dice_size (heap s' r))
       \<and> players s' = players s \<and> current_bet s' = None
       \<and> current_player s' = current_player s \<and> previous_player s' = previous_player s"
proof (cases exact)
  case False
  have l: "dice (heap s c) \<noteq> []"
    using hands by simp
  have cs: "call_spot_on s = lose_and_reset (Some c) False s"
    using bet cur exact False by (simp add: call_spot_on_def check_spot_on_def)
  from lose_and_reset_ok [OF l sizes, of False] obtain s' where
    res: "lose_and_reset (Some c) False s = (Inr False, s')"
    and rr: "rerolled (players s) ((set_dice c (butlast (dice (heap s c))) s)\<lparr>current_bet := None\<rparr>) s'"
    by blast
  from cs res False have e: "call_spot_on s = (Inr exact, s')"
    by simp
  from rerolled_after_loss [OF rr l] False e show ?thesis
    by (intro exI [of _ s']) simp
next
  case True
  define s1 where "s1 = lose_others (players s) s"
  have "\<forall>p\<in>set (players s). Some p \<noteq> current_player s \<longrightarrow> dice (heap s p) \<noteq> []"
    using hands by simp
  from remove_others_ok [OF dist this] have ro: "remove_others (players s) s = (Inr (), s1)"
    by (simp add: s1_def)
  have "\<forall>p\<in>set (players s1). dice (heap s1 p) = [] \<or> 1 \<le> player_dice_size (heap s1 p)"
    using sizes by (simp add: s1_def)
  from reset_rerolled [OF this] obtain s' where
    rs: "reset s1 = (Inr (), s')" and rr: "rerolled (players s) (s1\<lparr>current_bet := None\<rparr>) s'"
    by (auto simp add: s1_def)
  have e: "call_spot_on s = (Inr exact, s')"
    using bet exact True ro rs by (simp add: call_spot_on_def check_spot_on_def)
  have len: "\<forall>r. int (length (dice (heap s' r)))
               = int (length (dice (heap s r))) - (if r \<in> set (players s) \<and> r \<noteq> c then 1 else 0)"
  proof
    fix r
    have "length (dice (heap s' r)) = length (dice (heap s1 r))"
      using rr by (simp add: rerolled_def)
    moreover have "r \<in> set (players s) \<Longrightarrow> 0 < length (dice (heap s r))"
      using hands by simp
    ultimately show "int (length (dice (heap s' r)))
               = int (length (dice (heap s r))) - (if r \<in> set (players s) \<and> r \<noteq> c then 1 else 0)"
      using cur by (auto simp add: s1_def int_length_pred)
  qed
  have "\<forall>r\<in>set (players s). \<forall>v\<in>set (dice (heap s' r)). 1 \<le> v \<and> v \<le> player_dice_size (heap s' r)"
    using rr by (simp add: rerolled_def s1_def)
  moreover have "players s' = players s \<and> current_bet s' = None
       \<and> current_player s' = current_player s \<and> previous_player s' = previous_player s"
    using rr by (simp add: rerolled_def s1_def)
  ultimately show ?thesis
    using e len True by (intro exI [of _ s']) simp
qed

theorem call_spot_on_resolves_witness:
  "\<exists>s'. call_spot_on table3 = (Inr True, s')
       \<and> length (dice (heap s' 0)) = 0 \<and> length (dice (heap s' 1)) = 0
       \<and> length (dice (heap s' 2)) = 1 \<and> current_bet s' = None"
proof -
  have "\<exists>s'. call_spot_on table3 = (Inr True, s')
       \<and> (\<forall>r. int (length (dice (heap s' r)))
               = int (length (dice (heap table3 r)))
                 - (if True then (if r \<in> set (players table3) \<and> r \<noteq> 2 then 1 else 0)
                    else (if r = 2 then 1 else 0)))
       \<and> (\<forall>r\<in>set (players table3). \<forall>v\<in>set (dice (heap s' r)).
             1 \<le> v \<and> v \<le> player_dice_size (heap s' r))
       \<and> players s' = players table3 \<and> current_bet s' = None
       \<and> current_player s' = current_player table3 \<and> previous_player s' = previous_player table3"
    by (rule call_spot_on_resolves [where b = "\<lparr>amount = 1, face = 2\<rparr>"])
       (simp_all add: table3_facts, simp_all add: table3_def)
  then obtain s' where e: "call_spot_on table3 = (Inr True, s')"
    and len: "\<forall>r. int (length (dice (heap s' r)))
               = int (length (dice (heap table3 r)))
                 - (if r \<in> set (players table3) \<and> r \<noteq> 2 then 1 else 0)"
    and cb: "current_bet s' = None"
    by auto
  from len [rule_format, of 0] len [rule_format, of 1] len [rule_format, of 2]
  have "length (dice (heap s' 0)) = 0 \<and> length (dice (heap s' 1)) = 0 \<and> length (dice (heap s' 2)) = 1"
    by (simp add: table3_facts) (simp add: table3_def)
  with e cb show ?thesis
    by blast
qed

subsection \<open>Float arithmetic\<close>

lemma double_limit_gt: "2 < double_limit"
  by (simp add: double_limit_def)

lemma tiny_limit_pos: "0 < tiny_limit"
  by (simp add: tiny_limit_def)

lemma tiny_limit_lt: "tiny_limit < 1 / 2"
  by (simp add: tiny_limit_def)

lemma float_pow_in_range:
  assumes "power_in_range overflows x e" and "x = 0 \<longrightarrow> 0 \<le> e"
  shows "float_pow overflows x e = Inr (power_int x e)"
  using assms double_limit_gt by (auto simp add: float_pow_def power_in_range_def)

lemma true_div_one:
  assumes "d \<noteq> 0" and "\<bar>d\<bar> < 2 ^ 1075"
  shows "true_div 1 d = Inr (1 / real_of_int d)"
proof -
  have d1: "1 \<le> \<bar>real_of_int d\<bar>"
    using assms(1) by (metis abs_ge_zero int_one_le_iff_zero_less of_int_1_le_iff of_int_abs zero_less_abs_iff)
  have "\<bar>real_of_int d\<bar> < 2 ^ 1075"
    using assms(2) by (metis of_int_abs of_int_less_iff of_int_numeral of_int_power)
  then have "tiny_limit < 1 / \<bar>real_of_int d\<bar>"
    unfolding tiny_limit_def using d1 by (intro divide_strict_left_mono) simp_all
  then have nt: "\<not> \<bar>1 / real_of_int d\<bar> \<le> tiny_limit"
    by (simp add: abs_divide)
  have "1 / \<bar>real_of_int d\<bar> \<le> 1"
    using d1 by simp
  then have nd: "\<not> double_limit \<le> \<bar>1 / real_of_int d\<bar>"
    using double_limit_gt by (simp add: abs_divide)
  show ?thesis
    using assms(1) nt nd by (simp add: true_div_def)
qed

lemma quotient_bounds:
  fixes x :: real
  assumes "2 \<le> x \<or> x \<le> -1"
  shows "1 / 2 \<le> \<bar>(x - 1) / x\<bar> \<and> \<bar>(x - 1) / x\<bar> \<le> 2"
proof (cases "2 \<le> x")
  case True
  then have "0 \<le> (x - 1) / x" by simp
  then have a: "\<bar>(x - 1) / x\<bar> = (x - 1) / x" by (rule abs_of_nonneg)
  have "1 / 2 \<le> (x - 1) / x" using True by (simp add: field_simps)
  moreover have "(x - 1) / x \<le> 2" using True by (simp add: field_simps)
  ultimately show ?thesis unfolding a by simp
next
  case False
  with assms have x: "x \<le> -1" by simp
  define y where "y = - x"
  have y: "1 \<le> y" using x by (simp add: y_def)
  have e: "(x - 1) / x = 1 + 1 / y"
    using x by (simp add: y_def field_simps)
  have "0 < 1 / y" "1 / y \<le> 1" using y by simp_all
  then have "1 / 2 \<le> \<bar>1 + 1 / y\<bar> \<and> \<bar>1 + 1 / y\<bar> \<le> 2"
    by linarith
  then show ?thesis unfolding e .
qed

lemma true_div_pred:
  assumes "d \<noteq> 0"
  shows "true_div (d - 1) d = Inr ((real_of_int d - 1) / real_of_int d)"
proof (cases "d = 1")
  case True
  then show ?thesis
    using tiny_limit_pos double_limit_gt by (simp add: true_div_def)
next
  case False
  with assms have "2 \<le> d \<or> d \<le> -1"
    by arith
  then have "real_of_int 2 \<le> real_of_int d \<or> real_of_int d \<le> real_of_int (-1)"
    by (simp only: of_int_le_iff)
  then have "2 \<le> real_of_int d \<or> real_of_int d \<le> -1"
    by simp
  from quotient_bounds [OF this]
  have b: "1 / 2 \<le> \<bar>(real_of_int d - 1) / real_of_int d\<bar>"
    "\<bar>(real_of_int d - 1) / real_of_int d\<bar> \<le> 2"
    by simp_all
  have "\<not> double_limit \<le> \<bar>(real_of_int d - 1) / real_of_int d\<bar>"
    using b(2) double_limit_gt by linarith
  moreover have "\<not> \<bar>(real_of_int d - 1) / real_of_int d\<bar> \<le> tiny_limit"
    using b(1) tiny_limit_lt by linarith
  ultimately show ?thesis
    using assms by (simp add: true_div_def)
qed

lemma double_limit_le_6_400: "double_limit \<le> 6 ^ 400"
  by (simp add: double_limit_def)

lemma double_limit_gt_1000: "1000 < double_limit"
  by (simp add: double_limit_def)

lemma tiny_limit_lt_1000: "tiny_limit < 1 / 1000"
  by (simp add: tiny_limit_def)

lemma exceeds_double_sixth: "exceeds_double (1 / 6) (- 400)"
  using double_limit_le_6_400 by (simp add: exceeds_double_def power_int_minus field_simps)

lemma small_power_in_range:
  assumes "\<bar>power_int x e\<bar> \<le> 1000" and "\<bar>e\<bar> \<le> 1000"
  shows "power_in_range exceeds_double x e"
proof -
  have "\<bar>real_of_int e\<bar> \<le> 1000"
    using assms(2) by linarith
  then show ?thesis
    using assms(1) double_limit_gt_1000 by (simp add: power_in_range_def exceeds_double_def)
qed

lemma unit_power_in_range:
  assumes "\<bar>x\<bar> \<le> 1" and "0 \<le> e" and "e \<le> 2"
  shows "power_in_range exceeds_double x e"
proof (rule small_power_in_range)
  have "\<bar>power_int x e\<bar> = \<bar>x\<bar> ^ nat e"
    using assms(2) by (simp add: power_int_def power_abs)
  also have "\<dots> \<le> 1"
    using assms(1) by (simp add: power_le_one)
  finally show "\<bar>power_int x e\<bar> \<le> 1000" by simp
  show "\<bar>e\<bar> \<le> 1000" using assms(2,3) by simp
qed

subsection \<open>The probability queries\<close>

lemma spot_on_equation_snd: "snd (spot_on_equation binom ovf f k n kd s) = s"
  by (simp add: spot_on_equation_def Let_def split: sum.split)

lemma spot_on_equation_fst_cong:
  assumes "dice_size s' = dice_size s" and "spot_on_default s' = spot_on_default s"
  shows "fst (spot_on_equation binom ovf f k n kd s')
           = fst (spot_on_equation binom ovf f k n kd s)"
  unfolding spot_on_equation_def Let_def assms by (simp split: sum.split)

lemma spot_on_each_snd: "snd (spot_on_each binom ovf f n is s) = s"
proof (induction "is")
  case Nil
  show ?case by simp
next
  case (Cons i "is")
  define r where "r = fst (spot_on_equation binom ovf f i n None s)"
  define rs where "rs = fst (spot_on_each binom ovf f n is s)"
  have e1: "spot_on_equation binom ovf f i n None s = (r, s)"
    by (simp add: r_def prod_eq_iff spot_on_equation_snd)
  have e2: "spot_on_each binom ovf f n is s = (rs, s)"
    using Cons.IH by (simp add: rs_def prod_eq_iff)
  show ?case
    by (cases r; cases rs) (simp_all add: e1 e2)
qed

lemma spot_on_each_fst_cong:
  assumes "dice_size s' = dice_size s" and "spot_on_default s' = spot_on_default s"
  shows "fst (spot_on_each binom ovf f n is s') = fst (spot_on_each binom ovf f n is s)"
proof (induction "is")
  case Nil
  show ?case by simp
next
  case (Cons i "is")
  define r where "r = fst (spot_on_equation binom ovf f i n None s)"
  define rs where "rs = fst (spot_on_each binom ovf f n is s)"
  have e1: "spot_on_equation binom ovf f i n None s = (r, s)"
    by (simp add: r_def prod_eq_iff spot_on_equation_snd)
  have e1': "spot_on_equation binom ovf f i n None s' = (r, s')"
    by (simp add: r_def prod_eq_iff spot_on_equation_snd spot_on_equation_fst_cong [OF assms])
  have e2: "spot_on_each binom ovf f n is s = (rs, s)"
    by (simp add: rs_def prod_eq_iff spot_on_each_snd)
  have e2': "spot_on_each binom ovf f n is s' = (rs, s')"
    using Cons.IH by (simp add: rs_def prod_eq_iff spot_on_each_snd)
  show ?case
    by (cases r; cases rs) (simp_all add: e1 e1' e2 e2')
qed

lemma bet_equation_closed:
  "bet_equation binom ovf f k n kd s =
     (let known = (case kd of None \<Rightarrow> bet_default s | Some xs \<Rightarrow> xs);
          q = k - int (count_list known f);
          m = n - int (length known)
      in (case fst (spot_on_each binom ovf f m [q..m] s) of
            Inl e \<Rightarrow> Inl e
          | Inr vs \<Rightarrow> Inr (sum_list vs), s))"
proof -
  define known where "known = (case kd of None \<Rightarrow> bet_default s | Some xs \<Rightarrow> xs)"
  define q where "q = k - int (count_list known f)"
  define m where "m = n - int (length known)"
  define rs where "rs = fst (spot_on_each binom ovf f m [q..m] s)"
  have e: "spot_on_each binom ovf f m [q..m] s = (rs, s)"
    by (simp add: rs_def prod_eq_iff spot_on_each_snd)
  have "bet_equation binom ovf f k n kd s =
      (case spot_on_each binom ovf f m [q..m] s of
         (Inl e, s') \<Rightarrow> (Inl e, s')
       | (Inr vs, s') \<Rightarrow> (Inr (sum_list vs), s'))"
    unfolding bet_equation_def Let_def known_def q_def m_def ..
  also have "\<dots> = (case rs of Inl e \<Rightarrow> Inl e | Inr vs \<Rightarrow> Inr (sum_list vs), s)"
    by (cases rs) (simp_all add: e)
  finally show ?thesis
    by (simp add: Let_def known_def q_def m_def rs_def)
qed

text \<open>
  Claim C10. The two probability queries are pure. For all arguments and every state,
  \<^verbatim>\<open>spot_on_equation\<close> and \<^verbatim>\<open>bet_equation\<close> leave the whole state as it was, whether
  they return or raise: the game, every hand (so also a hand passed as \<^verbatim>\<open>known_dice\<close>)
  and the two default lists of \<^verbatim>\<open>known_dice\<close>. Their result depends on the state only
  through \<^verbatim>\<open>dice_size\<close> and the default lists: two states that agree on these give
  the same result for the same arguments.
\<close>

theorem queries_pure:
  "snd (spot_on_equation binom overflows f k n kd s) = s
   \<and> snd (bet_equation binom overflows f k n kd s) = s
   \<and> (dice_size s' = dice_size s \<and> spot_on_default s' = spot_on_default s
        \<longrightarrow> fst (spot_on_equation binom overflows f k n kd s')
            = fst (spot_on_equation binom overflows f k n kd s))
   \<and> (dice_size s' = dice_size s \<and> spot_on_default s' = spot_on_default s
        \<and> bet_default s' = bet_default s
        \<longrightarrow> fst (bet_equation binom overflows f k n kd s')
            = fst (bet_equation binom overflows f k n kd s))"
proof (intro conjI impI)
  show "snd (spot_on_equation binom overflows f k n kd s) = s"
    by (rule spot_on_equation_snd)
  show "snd (bet_equation binom overflows f k n kd s) = s"
    by (simp add: bet_equation_closed Let_def)
  show "fst (spot_on_equation binom overflows f k n kd s')
          = fst (spot_on_equation binom overflows f k n kd s)"
    if "dice_size s' = dice_size s \<and> spot_on_default s' = spot_on_default s"
    using that by (intro spot_on_equation_fst_cong) simp_all
  show "fst (bet_equation binom overflows f k n kd s')
          = fst (bet_equation binom overflows f k n kd s)"
    if h: "dice_size s' = dice_size s \<and> spot_on_default s' = spot_on_default s
        \<and> bet_default s' = bet_default s"
  proof -
    have "fst (spot_on_each binom overflows f m is s')
            = fst (spot_on_each binom overflows f m is s)" for m "is"
      using h by (intro spot_on_each_fst_cong) simp_all
    then show ?thesis
      using h by (cases kd) (simp_all add: bet_equation_closed Let_def)
  qed
qed

theorem queries_pure_witness:
  "snd (spot_on_equation binom_std exceeds_double 2 1 3 (Some [6]) table3) = table3
   \<and> snd (bet_equation binom_std exceeds_double 2 1 3 (Some [6]) table3) = table3
   \<and> fst (spot_on_equation binom_std exceeds_double 2 1 3 (Some [6]) (table3\<lparr>current_bet := None\<rparr>))
       = fst (spot_on_equation binom_std exceeds_double 2 1 3 (Some [6]) table3)
   \<and> fst (bet_equation binom_std exceeds_double 2 1 3 (Some [6]) (table3\<lparr>current_bet := None\<rparr>))
       = fst (bet_equation binom_std exceeds_double 2 1 3 (Some [6]) table3)"
  using queries_pure [of binom_std exceeds_double 2 1 3 "Some [6]" table3
      "table3\<lparr>current_bet := None\<rparr>"]
  by simp

lemma spot_on_equation_value:
  assumes ds: "dice_size s \<noteq> 0" and small: "\<bar>dice_size s\<bar> < 2 ^ 1075"
    and known: "known = (case kd of None \<Rightarrow> spot_on_default s | Some xs \<Rightarrow> xs)"
    and q: "q = k - int (count_list known f)"
    and m: "m = n - int (length known)"
    and safe: "dice_size s = 1 \<longrightarrow> q \<le> m"
    and r1: "power_in_range ovf (1 / real_of_int (dice_size s)) q"
    and r2: "power_in_range ovf ((real_of_int (dice_size s) - 1) / real_of_int (dice_size s)) (m - q)"
  shows "spot_on_equation binom ovf f k n kd s = (Inr (binomial_mass binom (dice_size s) m q), s)"
proof -
  define d where "d = dice_size s"
  have a: "true_div 1 d = Inr (1 / real_of_int d)"
    using ds small unfolding d_def by (rule true_div_one)
  have b: "true_div (d - 1) d = Inr ((real_of_int d - 1) / real_of_int d)"
    using ds unfolding d_def by (rule true_div_pred)
  have "1 / real_of_int d \<noteq> 0"
    using ds by (simp add: d_def)
  then have aq: "float_pow ovf (1 / real_of_int d) q = Inr (power_int (1 / real_of_int d) q)"
    using r1 by (intro float_pow_in_range) (simp_all add: d_def)
  have "(real_of_int d - 1) / real_of_int d = 0 \<longrightarrow> 0 \<le> m - q"
    using ds safe by (auto simp add: d_def)
  then have bq: "float_pow ovf ((real_of_int d - 1) / real_of_int d) (m - q)
                   = Inr (power_int ((real_of_int d - 1) / real_of_int d) (m - q))"
    using r2 by (intro float_pow_in_range) (simp_all add: d_def)
  show ?thesis
    unfolding spot_on_equation_def Let_def known [symmetric] q [symmetric] m [symmetric]
      d_def [symmetric]
    by (simp add: a aq b bq binomial_mass_def)
qed

lemma table3_defaults: "spot_on_default table3 = []" "bet_default table3 = []"
  by (simp_all add: table3_def)

lemma binom_std_values:
  "binom_std 2 1 = 2" "binom_std 2 2 = 1" "binom_std 0 0 = 1" "binom_std 2 3 = 0"
  "binom_std 2 (-1) = 0"
  by (simp_all add: binom_std_def)


lemma binomial_mass_values:
  "binomial_mass binom_std 6 2 1 = 5 / 18"
  "binomial_mass binom_std 6 2 2 = 1 / 36"
  by (simp_all add: binomial_mass_def binom_std_values power2_eq_square)

lemma upto_1_2: "[1..2::int] = [1, 2]"
  by (simp add: upto_rec1)

lemma spot_on_each_mass:
  assumes ds: "dice_size s \<noteq> 0" and small: "\<bar>dice_size s\<bar> < 2 ^ 1075"
    and default: "spot_on_default s = []"
    and range: "\<forall>i\<in>set is. i \<le> m
        \<and> power_in_range ovf (1 / real_of_int (dice_size s)) i
        \<and> power_in_range ovf ((real_of_int (dice_size s) - 1) / real_of_int (dice_size s)) (m - i)"
  shows "spot_on_each binom ovf f m is s = (Inr (map (binomial_mass binom (dice_size s) m) is), s)"
  using range
proof (induction "is")
  case Nil
  show ?case by simp
next
  case (Cons i "is")
  have "spot_on_equation binom ovf f i m None s = (Inr (binomial_mass binom (dice_size s) m i), s)"
    using Cons.prems by (intro spot_on_equation_value [OF ds small, where known = "[]"])
      (simp_all add: default)
  moreover have "spot_on_each binom ovf f m is s
                   = (Inr (map (binomial_mass binom (dice_size s) m) is), s)"
    using Cons by simp
  ultimately show ?case by simp
qed


lemma raises_overflow:
  "spot_on_equation binom_std exceeds_double 1 (- 400) 10 None table3
     = (Inl OverflowError, table3)"
  "spot_on_equation binom_std exceeds_double 1 (- 400) 10 (Some []) table3
     = (Inl OverflowError, table3)"
  using double_limit_gt_1000 tiny_limit_pos tiny_limit_lt_1000 exceeds_double_sixth
  by (simp_all add: spot_on_equation_def table3_facts table3_defaults true_div_def float_pow_def)

lemma raises_zero_die:
  "spot_on_equation binom ovf f k n kd (table3\<lparr>dice_size := 0\<rparr>)
     = (Inl ZeroDivisionError, table3\<lparr>dice_size := 0\<rparr>)"
  by (simp add: spot_on_equation_def true_div_def)

lemma raises_huge_die:
  "spot_on_equation binom_std exceeds_double 2 (- 1) 0 None (table3\<lparr>dice_size := 2 ^ 1075\<rparr>)
     = (Inl ZeroDivisionError, table3\<lparr>dice_size := 2 ^ 1075\<rparr>)"
  "spot_on_equation binom_std exceeds_double 2 (- 1) 0 (Some []) (table3\<lparr>dice_size := 2 ^ 1075\<rparr>)
     = (Inl ZeroDivisionError, table3\<lparr>dice_size := 2 ^ 1075\<rparr>)"
  by (simp_all add: spot_on_equation_def table3_defaults true_div_def float_pow_def
        tiny_limit_def double_limit_def)

text \<open>
  Claim C7, as the code has it. Let \<open>q\<close> and \<open>m\<close> be the count and the pool size after
  the known dice have been taken off (the count of the face in the known dice from \<open>k\<close>,
  their number from \<open>n\<close>). When no inner call raises, \<^verbatim>\<open>bet_equation\<close> returns the sum
  over \<open>i\<close> from \<open>q\<close> to \<open>m\<close> inclusive of the binomial probability mass for exactly \<open>i\<close> of
  \<open>m\<close> dice: the known dice are taken off once, not a second time in the inner calls.
  No inner call raises when the die size is not 0 and below \<open>2^1075\<close> in magnitude (so
  that \<^verbatim>\<open>1/dice_size\<close> is not \<open>0.0\<close>) and, for every \<open>i\<close> from \<open>q\<close> to \<open>m\<close>, the powers
  \<^verbatim>\<open>(1/dice_size) ** i\<close> and \<^verbatim>\<open>((dice_size-1)/dice_size) ** (m-i)\<close> are within the range of
  a double. The default list of \<^verbatim>\<open>spot_on_equation\<close> is empty, as the queries leave it.
\<close>

theorem bet_equation_sums:
  assumes "dice_size s \<noteq> 0" and "\<bar>dice_size s\<bar> < 2 ^ 1075"
    and "spot_on_default s = []"
    and "known = (case kd of None \<Rightarrow> bet_default s | Some xs \<Rightarrow> xs)"
    and "q = k - int (count_list known f)"
    and "m = n - int (length known)"
    and "\<forall>i\<in>{q..m}. power_in_range overflows (1 / real_of_int (dice_size s)) i
        \<and> power_in_range overflows
              ((real_of_int (dice_size s) - 1) / real_of_int (dice_size s)) (m - i)"
  shows "bet_equation binom overflows f k n kd s
           = (Inr (\<Sum>i\<leftarrow>[q..m]. binomial_mass binom (dice_size s) m i), s)"
proof -
  have "spot_on_each binom overflows f m [q..m] s
          = (Inr (map (binomial_mass binom (dice_size s) m) [q..m]), s)"
    using assms(1-3,7) by (intro spot_on_each_mass) simp_all
  then show ?thesis
    using assms(4-6) by (simp add: bet_equation_closed Let_def)
qed

theorem bet_equation_sums_witness:
  "bet_equation binom_std exceeds_double 2 1 3 (Some [6]) table3 = (Inr (11 / 36), table3)"
proof -
  have "bet_equation binom_std exceeds_double 2 1 3 (Some [6]) table3
          = (Inr (\<Sum>i\<leftarrow>[1..2]. binomial_mass binom_std (dice_size table3) 2 i), table3)"
    by (rule bet_equation_sums [where known = "[6]"])
       (simp_all add: table3_facts table3_defaults unit_power_in_range)
  then show ?thesis
    by (simp add: table3_facts binomial_mass_values upto_1_2)
qed

text \<open>
  Where an inner call raises, \<^verbatim>\<open>bet_equation\<close> raises: \<^verbatim>\<open>OverflowError\<close> for \<open>k = -400\<close>
  on six-sided dice (\<^verbatim>\<open>(1/6) ** -400\<close>), \<^verbatim>\<open>ZeroDivisionError\<close> for a die size of 0, and
  for a die size of \<open>2^1075\<close> with a negative \<open>q\<close> (\<^verbatim>\<open>0.0 ** -1\<close>).
\<close>

theorem bet_equation_raises_counterexample:
  "fst (bet_equation binom_std exceeds_double 1 (- 400) 10 (Some []) table3) = Inl OverflowError
   \<and> fst (bet_equation binom_std exceeds_double 2 1 3 (Some [6]) (table3\<lparr>dice_size := 0\<rparr>))
       = Inl ZeroDivisionError
   \<and> fst (bet_equation binom_std exceeds_double 2 (- 1) 0 (Some [])
            (table3\<lparr>dice_size := 2 ^ 1075\<rparr>))
       = Inl ZeroDivisionError"
proof (intro conjI)
  have u: "[- 400..10] = - 400 # [- 399..10]"
    by (simp add: upto_rec1)
  show "fst (bet_equation binom_std exceeds_double 1 (- 400) 10 (Some []) table3)
          = Inl OverflowError"
    by (simp add: bet_equation_def u raises_overflow)
  have v: "[1..2] = 1 # [2..2::int]"
    by (simp add: upto_rec1)
  show "fst (bet_equation binom_std exceeds_double 2 1 3 (Some [6]) (table3\<lparr>dice_size := 0\<rparr>))
          = Inl ZeroDivisionError"
    by (simp add: bet_equation_def v raises_zero_die)
  have w: "[- 1..0] = - 1 # [0..0::int]"
    by (simp add: upto_rec1)
  have "spot_on_each binom_std exceeds_double 2 0 (- 1 # [0..0])
          (table3\<lparr>dice_size := 2 ^ 1075\<rparr>)
        = (Inl ZeroDivisionError, table3\<lparr>dice_size := 2 ^ 1075\<rparr>)"
    by (simp only: spot_on_each.simps raises_huge_die prod.case sum.case)
  then show "fst (bet_equation binom_std exceeds_double 2 (- 1) 0 (Some [])
            (table3\<lparr>dice_size := 2 ^ 1075\<rparr>)) = Inl ZeroDivisionError"
    unfolding bet_equation_def Let_def by (simp add: w)
qed




subsection \<open>Failing calls\<close>

lemma all_or_nothing_Inr: "m s = (Inr v, s') \<Longrightarrow> effect s v s' \<Longrightarrow> all_or_nothing effect m s"
  by (simp add: all_or_nothing_def)

lemma all_or_nothing_Inl: "m s = (Inl e, s) \<Longrightarrow> all_or_nothing effect m s"
  by (simp add: all_or_nothing_def)

lemma first_bet_all_or_nothing: "all_or_nothing (bet_effect b) (first_bet b) s"
  by (simp add: all_or_nothing_def first_bet_def bet_effect_def)

lemma place_bet_all_or_nothing: "all_or_nothing (bet_effect b) (place_bet b) s"
  by (cases "current_bet s") (simp_all add: all_or_nothing_def place_bet_def bet_effect_def)

lemma next_player_all_or_nothing:
  assumes "players s \<noteq> []"
  shows "all_or_nothing next_player_effect next_player s"
  using assms
  by (cases "players s") (simp_all add: all_or_nothing_def next_player_def next_player_effect_def)

lemma remove_each_filter:
  assumes "\<forall>a\<in>set as. \<not> P a" and "players s = as @ xs"
  shows "remove_each (filter P xs) s = (Inr (), s\<lparr>players := as @ filter (\<lambda>p. \<not> P p) xs\<rparr>)"
  using assms
proof (induction xs arbitrary: as s)
  case Nil
  then show ?case by simp
next
  case (Cons x xs)
  show ?case
  proof (cases "P x")
    case True
    with Cons.prems have notin: "x \<notin> set as" by blast
    have mem: "x \<in> set (players s)"
      using Cons.prems by simp
    have rem: "remove1 x (players s) = as @ xs"
      using Cons.prems notin by (simp add: remove1_append)
    have "remove_each (filter P xs) (s\<lparr>players := as @ xs\<rparr>)
            = (Inr (), s\<lparr>players := as @ xs\<rparr>\<lparr>players := as @ filter (\<lambda>p. \<not> P p) xs\<rparr>)"
      using Cons.prems by (intro Cons.IH) simp_all
    then show ?thesis
      using True mem rem by simp
  next
    case False
    have "remove_each (filter P xs) s
            = (Inr (), s\<lparr>players := (as @ [x]) @ filter (\<lambda>p. \<not> P p) xs\<rparr>)"
      using Cons.prems False by (intro Cons.IH) simp_all
    then show ?thesis
      using False by simp
  qed
qed

lemma remove_lost_players_all_or_nothing:
  "all_or_nothing remove_lost_players_effect remove_lost_players s"
proof -
  have "remove_each (filter (\<lambda>p. lost p s) (players s)) s
          = (Inr (), s\<lparr>players := [] @ filter (\<lambda>p. \<not> lost p s) (players s)\<rparr>)"
    by (rule remove_each_filter) simp_all
  then show ?thesis
    by (simp add: all_or_nothing_def remove_lost_players_def remove_lost_players_effect_def)
qed

lemma game_setup_all_or_nothing:
  assumes ne: "players s \<noteq> []" and ro: "rollable s"
  shows "all_or_nothing setup_effect game_setup s"
proof -
  have "\<forall>p\<in>set (players s). dice (heap s p) = [] \<or> 1 \<le> player_dice_size (heap s p)"
    using ro by (auto simp add: rollable_def)
  from roll_all_rerolled [OF this] obtain s1 where
    r: "roll_all (players s) s = (Inr (), s1)" and rr: "rerolled (players s) s s1"
    by blast
  obtain p ps where pl: "players s = p # ps"
    using ne by (cases "players s") simp_all
  have pl1: "players s1 = p # ps"
    using rr pl by (simp add: rerolled_def)
  define s2 where "s2 = s1\<lparr>current_player := None, previous_player := None, current_bet := None,
                          previous_player := None, players := ps @ [p], current_player := Some p\<rparr>"
  have e: "game_setup s = (Inr (), s2)"
    using r pl1 by (simp add: game_setup_def next_player_def s2_def)
  have "rerolled (players s)
          (s\<lparr>current_bet := None, previous_player := None,
             players := tl (players s) @ [hd (players s)],
             current_player := Some (hd (players s))\<rparr>) s2"
    using rr pl by (simp add: rerolled_def s2_def)
  then have "setup_effect s () s2"
    using ne by (simp add: setup_effect_def)
  with e show ?thesis
    by (rule all_or_nothing_Inr)
qed

lemma lose_and_reset_rollable:
  assumes l: "dice (heap s l) \<noteq> []" and ro: "rollable s"
  shows "\<exists>s'. lose_and_reset (Some l) answer s = (Inr answer, s') \<and> loss_effect l s s'"
proof -
  define s1 where "s1 = set_dice l (butlast (dice (heap s l))) s"
  have rd: "remove_die_of (Some l) s = (Inr (), s1)"
    using l by (simp add: remove_die_of_def remove_die_def s1_def)
  have "\<forall>p\<in>set (players s1). dice (heap s1 p) = [] \<or> 1 \<le> player_dice_size (heap s1 p)"
    using ro l by (auto simp add: s1_def rollable_def)
  from reset_rerolled [OF this] obtain s' where
    "reset s1 = (Inr (), s')" "rerolled (players s1) (s1\<lparr>current_bet := None\<rparr>) s'"
    by blast
  with rd l show ?thesis
    by (simp add: lose_and_reset_def s1_def loss_effect_def)
qed

lemma lose_and_reset_cases:
  assumes ro: "rollable s"
  shows "lose_and_reset r answer s = (Inl AttributeError, s) \<and> r = None
       \<or> lose_and_reset r answer s = (Inl IndexError, s)
       \<or> (\<exists>l s'. r = Some l \<and> lose_and_reset r answer s = (Inr answer, s') \<and> loss_effect l s s')"
proof (cases r)
  case None
  then show ?thesis
    by (simp add: lose_and_reset_def remove_die_of_def)
next
  case (Some l)
  show ?thesis
  proof (cases "dice (heap s l) = []")
    case True
    with Some show ?thesis
      by (simp add: lose_and_reset_def remove_die_of_def remove_die_def)
  next
    case False
    from lose_and_reset_rollable [OF False ro, of answer] Some show ?thesis
      by blast
  qed
qed

lemma call_bluff_all_or_nothing:
  assumes ro: "rollable s"
  shows "all_or_nothing call_bluff_effect call_bluff s"
proof (cases "current_bet s")
  case None
  then have "call_bluff s = (Inl AttributeError, s)"
    by (simp add: call_bluff_def check_bet_def)
  then show ?thesis by (rule all_or_nothing_Inl)
next
  case (Some b)
  define ok where "ok = (amount b \<le> int (count_list (all_dice s) (face b)))"
  define r where "r = (if ok then current_player s else previous_player s)"
  have cb: "call_bluff s = lose_and_reset r (\<not> ok) s"
    using Some by (simp add: call_bluff_def check_bet_def ok_def r_def)
  from lose_and_reset_cases [OF ro, of r "\<not> ok"] show ?thesis
  proof (elim disjE exE conjE)
    assume "lose_and_reset r (\<not> ok) s = (Inl AttributeError, s)"
    with cb show ?thesis by (simp add: all_or_nothing_def)
  next
    assume "lose_and_reset r (\<not> ok) s = (Inl IndexError, s)"
    with cb show ?thesis by (simp add: all_or_nothing_def)
  next
    fix l s'
    assume rl: "r = Some l" and res: "lose_and_reset r (\<not> ok) s = (Inr (\<not> ok), s')"
      and le: "loss_effect l s s'"
    have "call_bluff_effect s (\<not> ok) s'"
      unfolding call_bluff_effect_def
      using Some rl le by (intro exI [of _ b] exI [of _ l]) (auto simp add: ok_def r_def split: if_splits)
    with cb res show ?thesis
      by (simp add: all_or_nothing_def)
  qed
qed

lemma call_spot_on_all_or_nothing:
  assumes ro: "rollable s" and dist: "distinct (players s)" and oh: "others_hold_dice s"
  shows "all_or_nothing call_spot_on_effect call_spot_on s"
proof (cases "current_bet s")
  case None
  then have "call_spot_on s = (Inl AttributeError, s)"
    by (simp add: call_spot_on_def check_spot_on_def)
  then show ?thesis by (rule all_or_nothing_Inl)
next
  case (Some b)
  show ?thesis
  proof (cases "int (count_list (all_dice s) (face b)) = amount b")
    case False
    have cs: "call_spot_on s = lose_and_reset (current_player s) False s"
      using Some False by (simp add: call_spot_on_def check_spot_on_def)
    from lose_and_reset_cases [OF ro, of "current_player s" False] show ?thesis
    proof (elim disjE exE conjE)
      assume "lose_and_reset (current_player s) False s = (Inl AttributeError, s)"
      with cs show ?thesis by (simp add: all_or_nothing_def)
    next
      assume "lose_and_reset (current_player s) False s = (Inl IndexError, s)"
      with cs show ?thesis by (simp add: all_or_nothing_def)
    next
      fix l s'
      assume rl: "current_player s = Some l"
        and res: "lose_and_reset (current_player s) False s = (Inr False, s')"
        and le: "loss_effect l s s'"
      have "call_spot_on_effect s False s'"
        unfolding call_spot_on_effect_def
        using Some False rl le by (intro exI [of _ b]) simp
      with cs res show ?thesis
        by (simp add: all_or_nothing_def)
    qed
  next
    case True
    define s1 where "s1 = lose_others (players s) s"
    have "\<forall>p\<in>set (players s). Some p \<noteq> current_player s \<longrightarrow> dice (heap s p) \<noteq> []"
      using oh by (simp add: others_hold_dice_def)
    from remove_others_ok [OF dist this]
    have rem: "remove_others (players s) s = (Inr (), s1)"
      by (simp add: s1_def)
    have "\<forall>p\<in>set (players s1). dice (heap s1 p) = [] \<or> 1 \<le> player_dice_size (heap s1 p)"
    proof
      fix p assume p: "p \<in> set (players s1)"
      show "dice (heap s1 p) = [] \<or> 1 \<le> player_dice_size (heap s1 p)"
      proof (cases "dice (heap s p) = []")
        case True
        then show ?thesis by (simp add: s1_def lose_others_def)
      next
        case False
        with ro p have "1 \<le> player_dice_size (heap s p)"
          by (simp add: rollable_def s1_def)
        then show ?thesis by (simp add: s1_def)
      qed
    qed
    from reset_rerolled [OF this] obtain s' where
      rs: "reset s1 = (Inr (), s')"
      and rr: "rerolled (players s) (s1\<lparr>current_bet := None\<rparr>) s'"
      by (auto simp add: s1_def)
    have e: "call_spot_on s = (Inr True, s')"
      using Some True rem rs by (simp add: call_spot_on_def check_spot_on_def)
    have "call_spot_on_effect s True s'"
      unfolding call_spot_on_effect_def
      using Some True oh rr by (intro exI [of _ b]) (simp add: s1_def)
    with e show ?thesis
      by (rule all_or_nothing_Inr)
  qed
qed

lemma table3_hypotheses:
  "players table3 \<noteq> []" "rollable table3" "distinct (players table3)" "others_hold_dice table3"
  by (simp_all add: rollable_def others_hold_dice_def table3_facts) (simp_all add: table3_def)

lemma rotation_fails:
  "fst (call_spot_on (table [[2], [], [6]] (Some \<lparr>amount = 1, face = 2\<rparr>) (Some 1) (Some 2)))
     = Inl IndexError
   \<and> dice (heap (table [[2], [], [6]] (Some \<lparr>amount = 1, face = 2\<rparr>) (Some 1) (Some 2)) 0) = [2]
   \<and> dice (heap (snd (call_spot_on
        (table [[2], [], [6]] (Some \<lparr>amount = 1, face = 2\<rparr>) (Some 1) (Some 2)))) 0) = []
   \<and> fst (next_player (table [] None (Some 1) (Some 0))) = Inl IndexError
   \<and> previous_player (table [] None (Some 1) (Some 0)) = Some 1
   \<and> previous_player (snd (next_player (table [] None (Some 1) (Some 0)))) = Some 0
   \<and> fst (game_setup (table [] (Some \<lparr>amount = 1, face = 2\<rparr>) None None)) = Inl IndexError
   \<and> current_bet (table [] (Some \<lparr>amount = 1, face = 2\<rparr>) None None)
       = Some \<lparr>amount = 1, face = 2\<rparr>
   \<and> current_bet (snd (game_setup (table [] (Some \<lparr>amount = 1, face = 2\<rparr>) None None))) = None"
  by (simp add: call_spot_on_def check_spot_on_def all_dice_def upt_rec remove_die_def
        next_player_def game_setup_def)

lemma zero_sized_fails:
  "fst (call_bluff zero_sized) = Inl ValueError
   \<and> dice (heap zero_sized 0) = [2]
   \<and> dice (heap (snd (call_bluff zero_sized)) 0) = []"
  by (simp add: zero_sized_def table3_def call_bluff_def check_bet_def all_dice_def upt_rec
        lose_and_reset_def remove_die_of_def remove_die_def reset_def roll_def randint_def
        set_dice_def)

lemma doubled_fails:
  "fst (call_spot_on doubled) = Inl IndexError
   \<and> dice (heap doubled 0) = [2]
   \<and> dice (heap (snd (call_spot_on doubled)) 0) = []"
  by (simp add: doubled_def call_spot_on_def check_spot_on_def all_dice_def remove_die_def)

text \<open>
  Claim C9, as the code has it. Every call of a mutator either returns with its
  documented effect fully applied, or raises and leaves the whole state (players, hands,
  current bet, current and previous player) as it was, in the following states:
  \<^verbatim>\<open>first_bet\<close>, \<^verbatim>\<open>place_bet\<close> and \<^verbatim>\<open>remove_lost_players\<close> in every state;
  \<^verbatim>\<open>next_player\<close> when the rotation is not empty; \<^verbatim>\<open>setup\<close> when the rotation is not
  empty and every hand of it can be rolled; \<^verbatim>\<open>call_bluff\<close> when every hand of the
  rotation can be rolled; \<^verbatim>\<open>call_spot_on\<close> when every hand of the rotation can be
  rolled, the rotation holds each player once and every player of it other than the
  current player holds a die.
\<close>

theorem mutators_all_or_nothing:
  "all_or_nothing (bet_effect b) (first_bet b) s
   \<and> all_or_nothing (bet_effect b) (place_bet b) s
   \<and> all_or_nothing remove_lost_players_effect remove_lost_players s
   \<and> (players s \<noteq> [] \<longrightarrow> all_or_nothing next_player_effect next_player s)
   \<and> (players s \<noteq> [] \<and> rollable s \<longrightarrow> all_or_nothing setup_effect game_setup s)
   \<and> (rollable s \<longrightarrow> all_or_nothing call_bluff_effect call_bluff s)
   \<and> (rollable s \<and> distinct (players s) \<and> others_hold_dice s
        \<longrightarrow> all_or_nothing call_spot_on_effect call_spot_on s)"
  using first_bet_all_or_nothing [of b s] place_bet_all_or_nothing [of b s]
    remove_lost_players_all_or_nothing [of s] next_player_all_or_nothing [of s]
    game_setup_all_or_nothing [of s] call_bluff_all_or_nothing [of s]
    call_spot_on_all_or_nothing [of s]
  by blast

theorem mutators_all_or_nothing_witness:
  "players table3 \<noteq> [] \<and> rollable table3 \<and> distinct (players table3) \<and> others_hold_dice table3
   \<and> all_or_nothing (bet_effect \<lparr>amount = 4, face = 2\<rparr>) (first_bet \<lparr>amount = 4, face = 2\<rparr>) table3
   \<and> all_or_nothing (bet_effect \<lparr>amount = 1, face = 3\<rparr>) (place_bet \<lparr>amount = 1, face = 3\<rparr>) table3
   \<and> all_or_nothing remove_lost_players_effect remove_lost_players table3
   \<and> all_or_nothing next_player_effect next_player table3
   \<and> all_or_nothing setup_effect game_setup table3
   \<and> all_or_nothing call_bluff_effect call_bluff table3
   \<and> all_or_nothing call_spot_on_effect call_spot_on table3"
  using mutators_all_or_nothing [of "\<lparr>amount = 4, face = 2\<rparr>" table3]
    mutators_all_or_nothing [of "\<lparr>amount = 1, face = 3\<rparr>" table3] table3_hypotheses
  by simp

text \<open>
  Outside these states a failing call leaves a partial change behind.
  \<^item> A player without dice is still in the rotation: an exact \<^verbatim>\<open>call_spot_on\<close> takes the
    die of the players before it and then raises \<^verbatim>\<open>IndexError\<close>.
  \<^item> The rotation is empty: \<^verbatim>\<open>next_player\<close> raises \<^verbatim>\<open>IndexError\<close> after it has
    overwritten \<^verbatim>\<open>previous_player\<close>, and \<^verbatim>\<open>setup\<close> raises it after it has cleared the bet.
  \<^item> The dice have no side: \<^verbatim>\<open>call_bluff\<close> takes the loser's die, empties the first
    hand to roll it again and raises \<^verbatim>\<open>ValueError\<close>.
  \<^item> The rotation holds a player twice: an exact \<^verbatim>\<open>call_spot_on\<close> takes that player's
    only die and raises \<^verbatim>\<open>IndexError\<close> at the second occurrence.
\<close>

theorem mutators_partial_failure_counterexample:
  "(fst (call_spot_on (table [[2], [], [6]] (Some \<lparr>amount = 1, face = 2\<rparr>) (Some 1) (Some 2)))
     = Inl IndexError
   \<and> dice (heap (table [[2], [], [6]] (Some \<lparr>amount = 1, face = 2\<rparr>) (Some 1) (Some 2)) 0) = [2]
   \<and> dice (heap (snd (call_spot_on
        (table [[2], [], [6]] (Some \<lparr>amount = 1, face = 2\<rparr>) (Some 1) (Some 2)))) 0) = []
   \<and> fst (next_player (table [] None (Some 1) (Some 0))) = Inl IndexError
   \<and> previous_player (table [] None (Some 1) (Some 0)) = Some 1
   \<and> previous_player (snd (next_player (table [] None (Some 1) (Some 0)))) = Some 0
   \<and> fst (game_setup (table [] (Some \<lparr>amount = 1, face = 2\<rparr>) None None)) = Inl IndexError
   \<and> current_bet (table [] (Some \<lparr>amount = 1, face = 2\<rparr>) None None)
       = Some \<lparr>amount = 1, face = 2\<rparr>
   \<and> current_bet (snd (game_setup (table [] (Some \<lparr>amount = 1, face = 2\<rparr>) None None))) = None)
   \<and> (fst (call_bluff zero_sized) = Inl ValueError
   \<and> dice (heap zero_sized 0) = [2]
   \<and> dice (heap (snd (call_bluff zero_sized)) 0) = [])
   \<and> (fst (call_spot_on doubled) = Inl IndexError
   \<and> dice (heap doubled 0) = [2]
   \<and> dice (heap (snd (call_spot_on doubled)) 0) = [])"
  by (rule conjI [OF rotation_fails conjI [OF zero_sized_fails doubled_fails]])

end
